theory Spec2Isabelle
  imports Main "HOL-Library.Monad_Syntax"
begin

section \<open>JavaScript values used by the application\<close>

text \<open>
  A JavaScript string is a sequence of UTF-16 code units; a code unit is modelled as a
  natural number. \<open>js\<close> embeds an ASCII literal, so that \<open>js ''abc''\<close> is the string
  \<^verbatim>\<open>"abc"\<close>; code units beyond ASCII are written as numbers.
\<close>

type_synonym jsstring = "nat list"

definition js :: "string \<Rightarrow> jsstring" where
  "js s = map of_char s"

text \<open>
  \<^verbatim>\<open>String.prototype.trim\<close> removes the WhiteSpace and LineTerminator code units of
  ECMAScript from both ends.
\<close>

definition isWhiteSpace :: "nat \<Rightarrow> bool" where
  "isWhiteSpace c \<longleftrightarrow>
     c = 0x9 \<or> c = 0xA \<or> c = 0xB \<or> c = 0xC \<or> c = 0xD \<or> c = 0x20 \<or> c = 0xA0 \<or>
     c = 0x1680 \<or> (0x2000 \<le> c \<and> c \<le> 0x200A) \<or> c = 0x2028 \<or> c = 0x2029 \<or>
     c = 0x202F \<or> c = 0x205F \<or> c = 0x3000 \<or> c = 0xFEFF"

definition trim :: "jsstring \<Rightarrow> jsstring" where
  "trim s = rev (dropWhile isWhiteSpace (rev (dropWhile isWhiteSpace s)))"

text \<open>\<^verbatim>\<open>s.includes(p)\<close>: \<open>p\<close> occurs in \<open>s\<close> as a contiguous run of code units.\<close>

fun startsWith :: "jsstring \<Rightarrow> jsstring \<Rightarrow> bool" where
  "startsWith s [] = True"
| "startsWith [] (p # ps) = False"
| "startsWith (c # cs) (p # ps) = (c = p \<and> startsWith cs ps)"

fun includes_str :: "jsstring \<Rightarrow> jsstring \<Rightarrow> bool" where
  "includes_str [] p = (p = [])"
| "includes_str (c # cs) p = (startsWith (c # cs) p \<or> includes_str cs p)"

text \<open>
  The values that \<^verbatim>\<open>JSON.parse\<close> and \<^verbatim>\<open>response.json()\<close> produce. A number is
  represented by its canonical decimal text (what \<^verbatim>\<open>String(n)\<close> returns), the only
  thing the application ever does with one. An object is its list of own properties in
  insertion order. \<^verbatim>\<open>undefined\<close> is not a JSON value: a value that may be undefined is
  a \<open>json option\<close>, with \<open>None\<close> for \<^verbatim>\<open>undefined\<close>.
\<close>

datatype json =
    JNull
  | JBool bool
  | JNum jsstring
  | JStr jsstring
  | JArr "json list"
  | JObj "(jsstring \<times> json) list"

type_synonym jsval = "json option"

text \<open>Truthiness, as \<^verbatim>\<open>if (v)\<close>, \<^verbatim>\<open>!v\<close> and \<^verbatim>\<open>v || w\<close> test it.\<close>

fun truthy :: "jsval \<Rightarrow> bool" where
  "truthy None = False"
| "truthy (Some JNull) = False"
| "truthy (Some (JBool b)) = b"
| "truthy (Some (JNum n)) = (n \<noteq> js ''0'' \<and> n \<noteq> js ''NaN'')"
| "truthy (Some (JStr s)) = (s \<noteq> [])"
| "truthy (Some (JArr xs)) = True"
| "truthy (Some (JObj ps)) = True"

text \<open>Decimal text of a natural number, as a template literal prints an array index.\<close>

function decimal :: "nat \<Rightarrow> jsstring" where
  "decimal n = (if n < 10 then [48 + n] else decimal (n div 10) @ [48 + n mod 10])"
  by pat_completeness auto
termination
  by (relation "measure (\<lambda>n. n)") auto

declare decimal.simps [simp del]

text \<open>
  Property read \<^verbatim>\<open>v.k\<close> for a property name \<open>k\<close> that no built-in prototype defines
  (the application reads \<^verbatim>\<open>title\<close>, \<^verbatim>\<open>content\<close>, \<^verbatim>\<open>language\<close>, \<^verbatim>\<open>llm\<close>,
  \<^verbatim>\<open>tts\<close>, \<^verbatim>\<open>apiKey\<close>, and \<^verbatim>\<open>length\<close>). The outer \<open>None\<close> is the TypeError of
  reading a property of \<^verbatim>\<open>null\<close> or \<^verbatim>\<open>undefined\<close>; \<open>Some None\<close> is the value
  \<^verbatim>\<open>undefined\<close> of a property that is not there.
\<close>

fun Get :: "jsval \<Rightarrow> jsstring \<Rightarrow> jsval option" where
  "Get None k = None"
| "Get (Some JNull) k = None"
| "Get (Some (JObj ps)) k = Some (map_of ps k)"
| "Get (Some (JArr xs)) k =
     Some (if k = js ''length'' then Some (JNum (decimal (length xs)))
           else map_of (zip (map decimal [0..<length xs]) xs) k)"
| "Get (Some (JStr s)) k =
     Some (if k = js ''length'' then Some (JNum (decimal (length s)))
           else map_of (zip (map decimal [0..<length s]) (map (\<lambda>c. JStr [c]) s)) k)"
| "Get (Some (JBool b)) k = Some None"
| "Get (Some (JNum n)) k = Some None"

section \<open>State of the application\<close>

text \<open>The enumeration \<^verbatim>\<open>AppState\<close>.\<close>

datatype AppState = IDLE | GENERATING_SUMMARY | READY | GENERATING_AUDIO | ERROR

text \<open>
  A decoded audio buffer. \<open>spoken\<close> records the text that was passed to
  \<^verbatim>\<open>generateSpeech\<close> in the call that returned the buffer, \<open>samples\<close> stands for the
  decoded audio data.
\<close>

record AudioBuffer =
  spoken :: jsstring
  samples :: nat

text \<open>
  A rejection value of the remote services: an \<^verbatim>\<open>Error\<close> object with its \<^verbatim>\<open>name\<close> and
  \<^verbatim>\<open>message\<close>.
\<close>

record jserror =
  name :: jsstring
  message :: jsstring

text \<open>
  The React state of \<^verbatim>\<open>App\<close> and of \<^verbatim>\<open>ArticleInput\<close>, followed by the environment
  that the handlers act on: the browser's local storage, the calls of the remote services
  that have not settled yet (each with the arguments its closure captured), the pending
  timers (the time each is due, in milliseconds) and the clock. \<open>audioContextRef\<close> tells
  whether the audio context was created. What has no effect on this state is left out:
  the log of the console, the scrolling to the result and whether the settings dialog is
  open.
\<close>

record state =
  textInput :: jsstring
  summary :: jsstring
  audioBuffer :: "AudioBuffer option"
  appState :: AppState
  errorDetails :: jsstring
  settings :: json
  isSettingsLoaded :: bool
  audioContextRef :: bool
  isFetchingNews :: bool
  fetchStatus :: jsstring
  selectedSourceUrl :: jsstring
  localStorage :: "jsstring \<rightharpoonup> jsstring"
  summaryCalls :: "(jsstring \<times> json) list"
  speechCalls :: "(jsstring \<times> json) list"
  fetchCalls :: "(jsstring \<times> jsstring) list"
  timers :: "nat list"
  clock :: nat

section \<open>The controller in \<^verbatim>\<open>App.tsx\<close>\<close>

text \<open>
  \<^verbatim>\<open>handleGenerateSummary\<close> up to its \<^verbatim>\<open>await\<close>: the guard, the four state updates
  and the call of \<^verbatim>\<open>summarizeArticles(textInput, settings)\<close>, which stays outstanding.
\<close>

definition handleGenerateSummary :: "state \<Rightarrow> state" where
  "handleGenerateSummary st =
     (if trim (textInput st) = [] then st
      else st\<lparr>errorDetails := [],
              appState := GENERATING_SUMMARY,
              summary := [],
              audioBuffer := None,
              summaryCalls := summaryCalls st @ [(textInput st, settings st)]\<rparr>)"

text \<open>
  The continuation of \<^verbatim>\<open>handleGenerateSummary\<close> when the awaited call fulfils with
  \<open>summaryText\<close>.
\<close>

definition summaryFulfilled :: "jsstring \<Rightarrow> state \<Rightarrow> state" where
  "summaryFulfilled summaryText st = st\<lparr>summary := summaryText, appState := READY\<rparr>"

text \<open>
  \<^verbatim>\<open>handleGenerateAudio\<close> up to its \<^verbatim>\<open>await\<close>: the guard on the summary, the lazily
  created audio context, the state update and the call
  \<^verbatim>\<open>generateSpeech(summary, audioContextRef.current, settings)\<close>.
\<close>

definition handleGenerateAudio :: "state \<Rightarrow> state" where
  "handleGenerateAudio st =
     (if summary st = [] then st
      else st\<lparr>audioContextRef := True,
              appState := GENERATING_AUDIO,
              speechCalls := speechCalls st @ [(summary st, settings st)]\<rparr>)"

text \<open>Its continuation when the awaited call fulfils with \<open>buffer\<close>.\<close>

definition speechFulfilled :: "AudioBuffer \<Rightarrow> state \<Rightarrow> state" where
  "speechFulfilled buffer st = st\<lparr>audioBuffer := Some buffer, appState := READY\<rparr>"

text \<open>\<^verbatim>\<open>String(error)\<close> for an \<^verbatim>\<open>Error\<close> object (\<^verbatim>\<open>Error.prototype.toString\<close>).\<close>

definition String_of_error :: "jserror \<Rightarrow> jsstring" where
  "String_of_error error =
     (if name error = [] then message error
      else if message error = [] then name error
      else name error @ js '': '' @ message error)"

definition safety_zh_CN :: jsstring where
  "safety_zh_CN =
     [0x5185, 0x5BB9, 0x88AB, 0x5B89, 0x5168, 0x8FC7, 0x6EE4, 0x5668, 0x62E6, 0x622A, 0x3002]"

definition safety_en :: jsstring where
  "safety_en = js ''Content blocked by safety filters.''"

text \<open>
  \<^verbatim>\<open>handleError\<close>. The handler is the one of the render in which the failed call was
  started, so \<open>settings\<close> here is the settings object that render saw; it is passed
  explicitly. Reading \<^verbatim>\<open>settings.language\<close> of \<^verbatim>\<open>null\<close> throws after the state was
  already set to \<open>ERROR\<close>.
\<close>

definition handleError :: "json \<Rightarrow> jserror \<Rightarrow> state \<Rightarrow> state" where
  "handleError settings' error st =
     (let st' = st\<lparr>appState := ERROR\<rparr>;
          msg = (if message error \<noteq> [] then message error else String_of_error error)
      in if includes_str msg (js ''SAFETY'') then
           (case Get (Some settings') (js ''language'') of
              None \<Rightarrow> st'
            | Some language \<Rightarrow>
                st'\<lparr>errorDetails :=
                      (if language = Some (JStr (js ''zh-CN'')) then safety_zh_CN
                       else safety_en)\<rparr>)
         else st'\<lparr>errorDetails := msg\<rparr>)"

text \<open>
  \<^verbatim>\<open>const isConfigMissing = !settings.llm.apiKey\<close>, evaluated in every render; \<open>None\<close>
  is the TypeError of reading \<^verbatim>\<open>apiKey\<close> of a missing \<^verbatim>\<open>llm\<close>.
\<close>

definition isConfigMissing :: "json \<Rightarrow> bool option" where
  "isConfigMissing settings' =
     do {
       llm \<leftarrow> Get (Some settings') (js ''llm'');
       apiKey \<leftarrow> Get llm (js ''apiKey'');
       Some (\<not> truthy apiKey)
     }"

section \<open>What the rendered page lets the user do\<close>

text \<open>
  \<^verbatim>\<open>App\<close> renders nothing before the settings are loaded, and a render that throws
  shows no page at all.
\<close>

definition rendered :: "state \<Rightarrow> bool" where
  "rendered st \<longleftrightarrow> isSettingsLoaded st \<and> isConfigMissing (settings st) \<noteq> None"

text \<open>
  The summary button of \<^verbatim>\<open>ArticleInput\<close>:
  \<^verbatim>\<open>disabled={!value.trim() || isGeneratingSummary || disabled}\<close>, where \<^verbatim>\<open>App\<close> passes
  \<^verbatim>\<open>isGeneratingSummary={appState === AppState.GENERATING_SUMMARY}\<close> and
  \<^verbatim>\<open>disabled={isConfigMissing}\<close>.
\<close>

definition summaryButtonDisabled :: "state \<Rightarrow> bool" where
  "summaryButtonDisabled st \<longleftrightarrow>
     trim (textInput st) = [] \<or> appState st = GENERATING_SUMMARY \<or>
     isConfigMissing (settings st) = Some True"

definition clickGenerateSummary :: "state \<Rightarrow> state" where
  "clickGenerateSummary st =
     (if rendered st \<and> \<not> summaryButtonDisabled st then handleGenerateSummary st else st)"

text \<open>
  The audio button: it is part of the reading view, shown when the state is \<open>READY\<close> or
  \<open>GENERATING_AUDIO\<close>; the player takes its place when there is an audio buffer; and
  \<^verbatim>\<open>disabled={appState === AppState.GENERATING_AUDIO}\<close>.
\<close>

definition audioButtonShown :: "state \<Rightarrow> bool" where
  "audioButtonShown st \<longleftrightarrow>
     rendered st \<and> (appState st = READY \<or> appState st = GENERATING_AUDIO) \<and>
     audioBuffer st = None"

definition clickGenerateAudio :: "state \<Rightarrow> state" where
  "clickGenerateAudio st =
     (if audioButtonShown st \<and> appState st \<noteq> GENERATING_AUDIO then handleGenerateAudio st
      else st)"

text \<open>The text area: \<^verbatim>\<open>onChange={(e) => onChange(e.target.value)}\<close>, \<^verbatim>\<open>disabled={disabled}\<close>.\<close>

definition typeText :: "jsstring \<Rightarrow> state \<Rightarrow> state" where
  "typeText v st =
     (if rendered st \<and> isConfigMissing (settings st) = Some False then st\<lparr>textInput := v\<rparr>
      else st)"

section \<open>The feed fetcher in \<^verbatim>\<open>ArticleInput\<close>\<close>

text \<open>The table \<^verbatim>\<open>SOURCES\<close>: name and URL of each feed.\<close>

definition SOURCES :: "(jsstring \<times> jsstring) list" where
  "SOURCES =
     [(js ''IT'' @ [0x4E4B, 0x5BB6] @ js '' ('' @ [0x79D1, 0x6280] @ js '')'',
         js ''https://www.ithome.com/rss/''),
      (js ''36Kr ('' @ [0x5546, 0x4E1A] @ js '')'', js ''https://36kr.com/feed''),
      ([0x5C11, 0x6570, 0x6D3E] @ js '' ('' @ [0x751F, 0x6D3B] @ js '')'',
         js ''https://sspai.com/feed''),
      (js ''Solidot ('' @ [0x6781, 0x5BA2] @ js '')'', js ''http://solidot.org/index.rss''),
      (js ''Engadget (Tech)'', js ''https://www.engadget.com/rss.xml''),
      (js ''The Verge'', js ''https://www.theverge.com/rss/index.xml''),
      (js ''Wired (Top)'', js ''https://www.wired.com/feed/rss''),
      (js ''TechCrunch'', js ''https://techcrunch.com/feed/'')]"

text \<open>
  \<^verbatim>\<open>encodeURIComponent\<close> throws a URIError on a string with a lone surrogate, and on
  no other string.
\<close>

definition isHighSurrogate :: "nat \<Rightarrow> bool" where
  "isHighSurrogate c \<longleftrightarrow> 0xD800 \<le> c \<and> c \<le> 0xDBFF"

definition isLowSurrogate :: "nat \<Rightarrow> bool" where
  "isLowSurrogate c \<longleftrightarrow> 0xDC00 \<le> c \<and> c \<le> 0xDFFF"

fun isWellFormed :: "jsstring \<Rightarrow> bool" where
  "isWellFormed [] = True"
| "isWellFormed [c] = (\<not> isHighSurrogate c \<and> \<not> isLowSurrogate c)"
| "isWellFormed (c # d # cs) =
     (if isHighSurrogate c then isLowSurrogate d \<and> isWellFormed cs
      else \<not> isLowSurrogate c \<and> isWellFormed (d # cs))"

text \<open>
  What the \<^verbatim>\<open>catch\<close> block of \<^verbatim>\<open>fetchFeed\<close> does, and its \<^verbatim>\<open>finally\<close> block. The
  timer set by \<^verbatim>\<open>setTimeout(..., 3000)\<close> is due 3000 ms after the current time.
\<close>

definition fetchFailed :: "state \<Rightarrow> state" where
  "fetchFailed st =
     st\<lparr>fetchStatus := js ''Failed to fetch'', timers := timers st @ [clock st + 3000]\<rparr>"

definition fetchFinally :: "state \<Rightarrow> state" where
  "fetchFinally st = st\<lparr>isFetchingNews := False\<rparr>"

text \<open>
  \<^verbatim>\<open>fetchFeed\<close> up to its first \<^verbatim>\<open>await\<close>: the guard, the flag and the status, and
  the request, which stays outstanding together with the \<open>sourceName\<close> its closure holds.
\<close>

definition fetchFeed :: "jsstring \<Rightarrow> jsstring \<Rightarrow> state \<Rightarrow> state" where
  "fetchFeed url sourceName st =
     (if isFetchingNews st then st
      else
        let st' = st\<lparr>isFetchingNews := True,
                      fetchStatus := js ''Connecting to '' @ sourceName @ js ''...''\<rparr>
        in if isWellFormed url
           then st'\<lparr>fetchCalls := fetchCalls st' @ [(url, sourceName)]\<rparr>
           else fetchFinally (fetchFailed st'))"

text \<open>
  How the request settles: \<^verbatim>\<open>fetch\<close> rejects, or it fulfils with a response that has
  its \<^verbatim>\<open>ok\<close> flag and a body that \<^verbatim>\<open>response.json()\<close> either rejects or parses.
\<close>

datatype response_body = NotJSON | Body json

datatype fetch_outcome = Rejected | Response bool response_body

text \<open>
  \<^verbatim>\<open>Array.prototype.join\<close> on an array of strings, and the string conversion of a
  template literal's substitution (\<open>None\<close> is a TypeError: an object whose own
  \<^verbatim>\<open>toString\<close> property, a JSON value, hides the callable one).
\<close>

fun join :: "jsstring \<Rightarrow> jsstring list \<Rightarrow> jsstring" where
  "join sep [] = []"
| "join sep [x] = x"
| "join sep (x # y # ys) = x @ sep @ join sep (y # ys)"

fun ToString :: "jsval \<Rightarrow> jsstring option" where
  "ToString None = Some (js ''undefined'')"
| "ToString (Some JNull) = Some (js ''null'')"
| "ToString (Some (JBool b)) = Some (if b then js ''true'' else js ''false'')"
| "ToString (Some (JNum n)) = Some n"
| "ToString (Some (JStr s)) = Some s"
| "ToString (Some (JArr xs)) =
     map_option (join (js '','')) (those (map (\<lambda>x. if x = JNull then Some [] else ToString (Some x)) xs))"
| "ToString (Some (JObj ps)) =
     (if js ''toString'' \<in> fst ` set ps then None else Some (js ''[object Object]''))"

text \<open>
  \<^verbatim>\<open>a.content?.trim() || 'Content not available.'\<close> for the value \<open>content\<close> of
  \<^verbatim>\<open>a.content\<close>: only a string has a \<^verbatim>\<open>trim\<close> method, so any other value that is not
  \<^verbatim>\<open>null\<close> or \<^verbatim>\<open>undefined\<close> is a TypeError.
\<close>

definition contentOrPlaceholder :: "jsval \<Rightarrow> jsstring option" where
  "contentOrPlaceholder content =
     (case content of
        None \<Rightarrow> Some (js ''Content not available.'')
      | Some JNull \<Rightarrow> Some (js ''Content not available.'')
      | Some (JStr s) \<Rightarrow> Some (if trim s = [] then js ''Content not available.'' else trim s)
      | Some _ \<Rightarrow> None)"

text \<open>
  The callback of \<^verbatim>\<open>map\<close>, with the element \<open>a\<close> and its index \<open>i\<close>:
  \<^verbatim>\<open>`# Article ${i + 1}: ${a.title}\n\n${...}`\<close>. A line feed is the code unit 10.
\<close>

definition articleBlock :: "nat \<Rightarrow> json \<Rightarrow> jsstring option" where
  "articleBlock i a =
     do {
       title \<leftarrow> Get (Some a) (js ''title'');
       titleText \<leftarrow> ToString title;
       content \<leftarrow> Get (Some a) (js ''content'');
       contentText \<leftarrow> contentOrPlaceholder content;
       Some (js ''# Article '' @ decimal (i + 1) @ js '': '' @ titleText @ [10, 10] @ contentText)
     }"

definition separator :: jsstring where
  "separator = [10, 10] @ js ''---'' @ [10, 10]"

text \<open>\<^verbatim>\<open>!articles || articles.length === 0\<close>.\<close>

definition noArticles :: "json \<Rightarrow> bool" where
  "noArticles articles \<longleftrightarrow>
     (if truthy (Some articles)
      then Get (Some articles) (js ''length'') = Some (Some (JNum (js ''0'')))
      else True)"

text \<open>
  \<^verbatim>\<open>articles.slice(0, 5).map(...).join('\n\n---\n\n')\<close>: only an array has both a
  \<^verbatim>\<open>slice\<close> whose result has a \<^verbatim>\<open>map\<close>; on any other value the chain is a TypeError.
\<close>

definition formatArticles :: "json \<Rightarrow> jsstring option" where
  "formatArticles articles =
     (case articles of
        JArr xs \<Rightarrow>
          map_option (join separator)
            (those (map (\<lambda>(i, a). articleBlock i a) (zip [0..<length (take 5 xs)] (take 5 xs))))
      | _ \<Rightarrow> None)"

text \<open>
  The argument of \<^verbatim>\<open>onChange\<close>, the template literal with the source label in
  lenticular brackets (the code units 0x3010 and 0x3011), an empty line and the blocks.
\<close>

definition articleText :: "jsstring \<Rightarrow> jsstring \<Rightarrow> jsstring" where
  "articleText sourceName formatted =
     [0x3010] @ js ''Source: '' @ sourceName @ [0x3011] @ [10, 10] @ formatted"

text \<open>
  The body of the \<^verbatim>\<open>try\<close> block after the request settled: the assembled text, or
  \<open>None\<close> when one of its steps throws or rejects.
\<close>

definition fetchedText :: "jsstring \<Rightarrow> fetch_outcome \<Rightarrow> jsstring option" where
  "fetchedText sourceName outcome =
     (case outcome of
        Rejected \<Rightarrow> None
      | Response ok body \<Rightarrow>
          if \<not> ok then None
          else (case body of
                  NotJSON \<Rightarrow> None
                | Body articles \<Rightarrow>
                    if noArticles articles then None
                    else map_option (articleText sourceName) (formatArticles articles)))"

text \<open>
  The continuation of \<^verbatim>\<open>fetchFeed\<close> once the request settled; \<^verbatim>\<open>onChange\<close> is the
  \<^verbatim>\<open>setTextInput\<close> of \<^verbatim>\<open>App\<close>.
\<close>

definition fetchSettled :: "jsstring \<Rightarrow> fetch_outcome \<Rightarrow> state \<Rightarrow> state" where
  "fetchSettled sourceName outcome st =
     fetchFinally
       (case fetchedText sourceName outcome of
          Some text \<Rightarrow> st\<lparr>textInput := text, fetchStatus := []\<rparr>
        | None \<Rightarrow> fetchFailed st)"

text \<open>
  Time passes: every timer that is due runs its callback \<^verbatim>\<open>() => setFetchStatus('')\<close>.
\<close>

definition elapse :: "nat \<Rightarrow> state \<Rightarrow> state" where
  "elapse ms st =
     (let now = clock st + ms
      in st\<lparr>clock := now,
            fetchStatus := (if list_ex (\<lambda>due. due \<le> now) (timers st) then [] else fetchStatus st),
            timers := filter (\<lambda>due. now < due) (timers st)\<rparr>)"

text \<open>\<^verbatim>\<open>handleSelectSource\<close>, \<^verbatim>\<open>handleRandomSource\<close> and \<^verbatim>\<open>handleClear\<close>.\<close>

definition handleSelectSource :: "jsstring \<Rightarrow> state \<Rightarrow> state" where
  "handleSelectSource url st =
     (let st' = st\<lparr>selectedSourceUrl := url\<rparr>
      in if url = [] then st'
         else (case find (\<lambda>s. snd s = url) SOURCES of
                 None \<Rightarrow> st'
               | Some source \<Rightarrow> fetchFeed url (fst source) st'))"

text \<open>
  \<open>k\<close> is the index that \<^verbatim>\<open>Math.floor(Math.random() * otherSources.length)\<close> yields;
  an index with no element gives \<^verbatim>\<open>undefined\<close>, and \<^verbatim>\<open>SOURCES[0]\<close> is taken.
\<close>

definition handleRandomSource :: "nat \<Rightarrow> state \<Rightarrow> state" where
  "handleRandomSource k st =
     (let otherSources = filter (\<lambda>s. snd s \<noteq> selectedSourceUrl st) SOURCES;
          randomSource = (if k < length otherSources then otherSources ! k else SOURCES ! 0)
      in fetchFeed (snd randomSource) (fst randomSource)
           (st\<lparr>selectedSourceUrl := snd randomSource\<rparr>))"

definition handleClear :: "bool \<Rightarrow> state \<Rightarrow> state" where
  "handleClear confirmed st = (if confirmed then st\<lparr>textInput := []\<rparr> else st)"

text \<open>
  The source selector and the random button are
  \<^verbatim>\<open>disabled={isFetchingNews || disabled}\<close>; the selector offers the empty choice and
  the URLs of \<^verbatim>\<open>SOURCES\<close>, and its change event comes with a choice other than the
  current one; the clear button is shown when the text is not empty.
\<close>

definition sourceControlsDisabled :: "state \<Rightarrow> bool" where
  "sourceControlsDisabled st \<longleftrightarrow> isFetchingNews st \<or> isConfigMissing (settings st) = Some True"

definition selectSource :: "jsstring \<Rightarrow> state \<Rightarrow> state" where
  "selectSource url st =
     (if rendered st \<and> \<not> sourceControlsDisabled st \<and> url \<noteq> selectedSourceUrl st \<and>
         (url = [] \<or> url \<in> snd ` set SOURCES)
      then handleSelectSource url st else st)"

definition clickRandom :: "nat \<Rightarrow> state \<Rightarrow> state" where
  "clickRandom k st =
     (if rendered st \<and> \<not> sourceControlsDisabled st then handleRandomSource k st else st)"

definition clickClear :: "bool \<Rightarrow> state \<Rightarrow> state" where
  "clickClear confirmed st =
     (if rendered st \<and> textInput st \<noteq> [] then handleClear confirmed st else st)"

section \<open>Events\<close>

text \<open>
  The page is driven by events, one at a time: the user's actions, the settling of an
  outstanding call (named by its position among the outstanding calls of its kind) and
  the passing of time. A settling event for a call that is not outstanding does not
  happen. Each handler runs on the state of the latest render; the continuation of an
  asynchronous handler keeps what its closure captured when the call was made. Saving
  the settings is not among these events; it is \<open>handleSaveSettings\<close> of the next
  section.
\<close>

datatype event =
    TypeText jsstring
  | ClickClear bool
  | ClickGenerateSummary
  | ClickGenerateAudio
  | SelectSource jsstring
  | ClickRandom nat
  | SummaryFulfilled nat jsstring
  | SummaryRejected nat jserror
  | SpeechFulfilled nat nat
  | SpeechRejected nat jserror
  | FetchSettled nat fetch_outcome
  | Elapse nat

definition without :: "nat \<Rightarrow> 'a list \<Rightarrow> 'a list" where
  "without i xs = take i xs @ drop (Suc i) xs"

fun step :: "state \<Rightarrow> event \<Rightarrow> state" where
  "step st (TypeText v) = typeText v st"
| "step st (ClickClear confirmed) = clickClear confirmed st"
| "step st ClickGenerateSummary = clickGenerateSummary st"
| "step st ClickGenerateAudio = clickGenerateAudio st"
| "step st (SelectSource url) = selectSource url st"
| "step st (ClickRandom k) = clickRandom k st"
| "step st (SummaryFulfilled i summaryText) =
     (if i < length (summaryCalls st)
      then summaryFulfilled summaryText (st\<lparr>summaryCalls := without i (summaryCalls st)\<rparr>)
      else st)"
| "step st (SummaryRejected i error) =
     (if i < length (summaryCalls st)
      then handleError (snd (summaryCalls st ! i)) error
             (st\<lparr>summaryCalls := without i (summaryCalls st)\<rparr>)
      else st)"
| "step st (SpeechFulfilled i data) =
     (if i < length (speechCalls st)
      then speechFulfilled \<lparr>spoken = fst (speechCalls st ! i), samples = data\<rparr>
             (st\<lparr>speechCalls := without i (speechCalls st)\<rparr>)
      else st)"
| "step st (SpeechRejected i error) =
     (if i < length (speechCalls st)
      then handleError (snd (speechCalls st ! i)) error
             (st\<lparr>speechCalls := without i (speechCalls st)\<rparr>)
      else st)"
| "step st (FetchSettled i outcome) =
     (if i < length (fetchCalls st)
      then fetchSettled (snd (fetchCalls st ! i)) outcome
             (st\<lparr>fetchCalls := without i (fetchCalls st)\<rparr>)
      else st)"
| "step st (Elapse ms) = elapse ms st"

definition run :: "state \<Rightarrow> event list \<Rightarrow> state" where
  "run st evs = foldl step st evs"

section \<open>Objects and JSON text\<close>

text \<open>
  The own properties of an object are enumerated with the array indices first, in
  ascending order, and the other keys after them in the order of their creation; this
  is the order of the list in \<open>JObj\<close>. An array index is the decimal text of a number
  below \<open>2\<^sup>3\<^sup>2 - 1\<close>.
\<close>

definition isDigit :: "nat \<Rightarrow> bool" where
  "isDigit c \<longleftrightarrow> 48 \<le> c \<and> c \<le> 57"

definition digitsValue :: "jsstring \<Rightarrow> nat" where
  "digitsValue k = foldl (\<lambda>n c. 10 * n + (c - 48)) 0 k"

definition arrayIndex :: "jsstring \<Rightarrow> nat option" where
  "arrayIndex k =
     (if k \<noteq> [] \<and> list_all isDigit k \<and> decimal (digitsValue k) = k \<and>
         digitsValue k < 4294967295
      then Some (digitsValue k) else None)"

text \<open>
  Creating or setting a property: a property that is there keeps its place and gets the
  new value; a new array index goes behind the smaller indices, any other new key to the
  end.
\<close>

definition indexBelow :: "nat \<Rightarrow> jsstring \<times> json \<Rightarrow> bool" where
  "indexBelow n p = (case arrayIndex (fst p) of None \<Rightarrow> False | Some m \<Rightarrow> m < n)"

definition setProperty ::
  "jsstring \<Rightarrow> json \<Rightarrow> (jsstring \<times> json) list \<Rightarrow> (jsstring \<times> json) list" where
  "setProperty k v ps =
     (if k \<in> fst ` set ps then map (\<lambda>(k', v'). if k' = k then (k', v) else (k', v')) ps
      else (case arrayIndex k of
              None \<Rightarrow> ps @ [(k, v)]
            | Some n \<Rightarrow> takeWhile (indexBelow n) ps @ (k, v) # dropWhile (indexBelow n) ps))"

text \<open>
  Object spread \<^verbatim>\<open>{...target, ...source}\<close> copies the own properties of \<open>source\<close>, one
  after the other. Spreading \<^verbatim>\<open>undefined\<close>, \<^verbatim>\<open>null\<close>, a number or a boolean copies
  nothing.
\<close>

fun ownProperties :: "jsval \<Rightarrow> (jsstring \<times> json) list" where
  "ownProperties (Some (JObj ps)) = ps"
| "ownProperties (Some (JArr xs)) = zip (map decimal [0..<length xs]) xs"
| "ownProperties (Some (JStr s)) = zip (map decimal [0..<length s]) (map (\<lambda>c. JStr [c]) s)"
| "ownProperties _ = []"

definition spread :: "(jsstring \<times> json) list \<Rightarrow> jsval \<Rightarrow> (jsstring \<times> json) list" where
  "spread target source = foldl (\<lambda>obj (k, v). setProperty k v obj) target (ownProperties source)"

subsection \<open>\<^verbatim>\<open>JSON.stringify\<close>\<close>

text \<open>
  A string is written between double quotes (34). The quote, the backslash (92) and the
  control characters are escaped (a backslash and one of the letters \<^verbatim>\<open>b t n f r\<close>, or
  a backslash, the letter \<^verbatim>\<open>u\<close> and four lower-case hexadecimal digits), a surrogate
  that is not part of a pair is written in the latter way too, and every other code unit
  stands for itself.
\<close>

definition hexDigit :: "nat \<Rightarrow> nat" where
  "hexDigit d = (if d < 10 then 48 + d else 87 + d)"

definition hex4 :: "nat \<Rightarrow> jsstring" where
  "hex4 n =
     [hexDigit (n div 4096 mod 16), hexDigit (n div 256 mod 16), hexDigit (n div 16 mod 16),
      hexDigit (n mod 16)]"

definition quoteUnit :: "nat \<Rightarrow> jsstring" where
  "quoteUnit c =
     (if c = 8 then [92, 98]
      else if c = 9 then [92, 116]
      else if c = 10 then [92, 110]
      else if c = 12 then [92, 102]
      else if c = 13 then [92, 114]
      else if c = 34 then [92, 34]
      else if c = 92 then [92, 92]
      else if c < 32 \<or> isHighSurrogate c \<or> isLowSurrogate c then [92, 117] @ hex4 c
      else [c])"

fun quoteBody :: "jsstring \<Rightarrow> jsstring" where
  "quoteBody [] = []"
| "quoteBody [c] = quoteUnit c"
| "quoteBody (c # d # cs) =
     (if isHighSurrogate c \<and> isLowSurrogate d then c # d # quoteBody cs
      else quoteUnit c @ quoteBody (d # cs))"

definition quote :: "jsstring \<Rightarrow> jsstring" where
  "quote s = [34] @ quoteBody s @ [34]"

text \<open>
  The text of a value, without any white space. A number is written as its canonical
  text, and \<^verbatim>\<open>NaN\<close> and the infinities as \<^verbatim>\<open>null\<close>; the properties of an object
  are written in the order of their enumeration.
\<close>

fun JSON_stringify :: "json \<Rightarrow> jsstring" where
  "JSON_stringify JNull = js ''null''"
| "JSON_stringify (JBool b) = (if b then js ''true'' else js ''false'')"
| "JSON_stringify (JNum n) =
     (if n = js ''NaN'' \<or> n = js ''Infinity'' \<or> n = js ''-Infinity'' then js ''null'' else n)"
| "JSON_stringify (JStr s) = quote s"
| "JSON_stringify (JArr xs) = js ''['' @ join (js '','') (map JSON_stringify xs) @ js '']''"
| "JSON_stringify (JObj ps) =
     js ''{'' @ join (js '','') (map (\<lambda>(k, v). quote k @ js '':'' @ JSON_stringify v) ps) @ js ''}''"

subsection \<open>\<^verbatim>\<open>JSON.parse\<close>\<close>

text \<open>White space between the tokens: space, tab, line feed and carriage return.\<close>

definition isJsonWhiteSpace :: "nat \<Rightarrow> bool" where
  "isJsonWhiteSpace c \<longleftrightarrow> c = 32 \<or> c = 9 \<or> c = 10 \<or> c = 13"

definition skipWhiteSpace :: "jsstring \<Rightarrow> jsstring" where
  "skipWhiteSpace s = dropWhile isJsonWhiteSpace s"

text \<open>
  A string after its opening quote: the string and the text behind the closing quote.
  An escape is a backslash and a double quote, a backslash, a slash or one of the
  letters \<^verbatim>\<open>b f n r t\<close>, or a backslash, the letter \<^verbatim>\<open>u\<close> and four hexadecimal
  digits; a control character must not appear unescaped.
\<close>

definition hexValue :: "nat \<Rightarrow> nat option" where
  "hexValue c =
     (if 48 \<le> c \<and> c \<le> 57 then Some (c - 48)
      else if 97 \<le> c \<and> c \<le> 102 then Some (c - 87)
      else if 65 \<le> c \<and> c \<le> 70 then Some (c - 55)
      else None)"

definition parseHex4 :: "nat \<Rightarrow> nat \<Rightarrow> nat \<Rightarrow> nat \<Rightarrow> nat option" where
  "parseHex4 a b c d =
     do {
       x \<leftarrow> hexValue a;
       y \<leftarrow> hexValue b;
       z \<leftarrow> hexValue c;
       w \<leftarrow> hexValue d;
       Some (4096 * x + 256 * y + 16 * z + w)
     }"

definition unescape :: "nat \<Rightarrow> nat option" where
  "unescape e =
     (if e = 34 \<or> e = 92 \<or> e = 47 then Some e
      else if e = 98 then Some 8
      else if e = 102 then Some 12
      else if e = 110 then Some 10
      else if e = 114 then Some 13
      else if e = 116 then Some 9
      else None)"

definition consUnit :: "nat \<Rightarrow> (jsstring \<times> jsstring) option \<Rightarrow> (jsstring \<times> jsstring) option" where
  "consUnit c r = map_option (\<lambda>(s, rest). (c # s, rest)) r"

fun parseString :: "jsstring \<Rightarrow> (jsstring \<times> jsstring) option" where
  "parseString [] = None"
| "parseString (c # r) =
     (if c = 34 then Some ([], r)
      else if c = 92 then
        (case r of
           [] \<Rightarrow> None
         | e # r' \<Rightarrow>
             if e = 117 then
               (case r' of
                  h1 # h2 # h3 # h4 # r'' \<Rightarrow>
                    (case parseHex4 h1 h2 h3 h4 of
                       None \<Rightarrow> None
                     | Some u \<Rightarrow> consUnit u (parseString r''))
                | _ \<Rightarrow> None)
             else (case unescape e of
                     None \<Rightarrow> None
                   | Some u \<Rightarrow> consUnit u (parseString r')))
      else if c < 32 then None
      else consUnit c (parseString r))"

text \<open>
  A number token: an optional minus, \<^verbatim>\<open>0\<close> or digits without a leading zero, an
  optional fraction and an optional exponent. The states are those of the automaton that
  reads it.
\<close>

datatype numberState =
  NStart | NMinus | NZero | NInt | NPoint | NFraction | NExp | NExpSign | NExpDigits

definition numberStep :: "numberState \<Rightarrow> nat \<Rightarrow> numberState option" where
  "numberStep q c =
     (case q of
        NStart \<Rightarrow> if c = 45 then Some NMinus else if c = 48 then Some NZero
                  else if isDigit c then Some NInt else None
      | NMinus \<Rightarrow> if c = 48 then Some NZero else if isDigit c then Some NInt else None
      | NZero \<Rightarrow> if c = 46 then Some NPoint else if c = 101 \<or> c = 69 then Some NExp else None
      | NInt \<Rightarrow> if isDigit c then Some NInt else if c = 46 then Some NPoint
                else if c = 101 \<or> c = 69 then Some NExp else None
      | NPoint \<Rightarrow> if isDigit c then Some NFraction else None
      | NFraction \<Rightarrow> if isDigit c then Some NFraction
                     else if c = 101 \<or> c = 69 then Some NExp else None
      | NExp \<Rightarrow> if c = 43 \<or> c = 45 then Some NExpSign
                else if isDigit c then Some NExpDigits else None
      | NExpSign \<Rightarrow> if isDigit c then Some NExpDigits else None
      | NExpDigits \<Rightarrow> if isDigit c then Some NExpDigits else None)"

fun numberAccepts :: "numberState \<Rightarrow> jsstring \<Rightarrow> bool" where
  "numberAccepts q [] = (q = NZero \<or> q = NInt \<or> q = NFraction \<or> q = NExpDigits)"
| "numberAccepts q (c # cs) =
     (case numberStep q c of None \<Rightarrow> False | Some q' \<Rightarrow> numberAccepts q' cs)"

definition isJsonNumber :: "jsstring \<Rightarrow> bool" where
  "isJsonNumber n \<longleftrightarrow> numberAccepts NStart n"

definition isNumberChar :: "nat \<Rightarrow> bool" where
  "isNumberChar c \<longleftrightarrow> isDigit c \<or> c = 45 \<or> c = 43 \<or> c = 46 \<or> c = 101 \<or> c = 69"

text \<open>
  The parser. \<open>numberText\<close> gives, for a number token, the canonical text of the number
  it denotes (a floating-point conversion, which is not modelled); it is a parameter.
  The first argument after it is the fuel of the recursion, and \<open>JSON_parse\<close> starts
  with the length of the text, which is enough for every text (more fuel gives the same
  result, as is proved below); \<open>None\<close> is a SyntaxError. A property that occurs twice
  keeps its first place and its last value.
\<close>

fun parseValue :: "(jsstring \<Rightarrow> jsstring) \<Rightarrow> nat \<Rightarrow> jsstring \<Rightarrow> (json \<times> jsstring) option"
  and parseElements ::
    "(jsstring \<Rightarrow> jsstring) \<Rightarrow> nat \<Rightarrow> jsstring \<Rightarrow> json list \<Rightarrow> (json \<times> jsstring) option"
  and parseMembers ::
    "(jsstring \<Rightarrow> jsstring) \<Rightarrow> nat \<Rightarrow> jsstring \<Rightarrow> (jsstring \<times> json) list \<Rightarrow>
       (json \<times> jsstring) option"
where
  "parseValue numberText 0 s = None"
| "parseValue numberText (Suc fuel) s =
     (case skipWhiteSpace s of
        [] \<Rightarrow> None
      | c # r \<Rightarrow>
          if c = 34 then map_option (\<lambda>(t, rest). (JStr t, rest)) (parseString r)
          else if c = 91 then
            (case skipWhiteSpace r of
               [] \<Rightarrow> None
             | d # r' \<Rightarrow> if d = 93 then Some (JArr [], r') else parseElements numberText fuel r [])
          else if c = 123 then
            (case skipWhiteSpace r of
               [] \<Rightarrow> None
             | d # r' \<Rightarrow> if d = 125 then Some (JObj [], r') else parseMembers numberText fuel r [])
          else if startsWith (c # r) (js ''true'') then Some (JBool True, drop 4 (c # r))
          else if startsWith (c # r) (js ''false'') then Some (JBool False, drop 5 (c # r))
          else if startsWith (c # r) (js ''null'') then Some (JNull, drop 4 (c # r))
          else if isJsonNumber (takeWhile isNumberChar (c # r))
          then Some (JNum (numberText (takeWhile isNumberChar (c # r))),
                     dropWhile isNumberChar (c # r))
          else None)"
| "parseElements numberText 0 s acc = None"
| "parseElements numberText (Suc fuel) s acc =
     (case parseValue numberText fuel s of
        None \<Rightarrow> None
      | Some (v, r) \<Rightarrow>
          (case skipWhiteSpace r of
             [] \<Rightarrow> None
           | c # r' \<Rightarrow>
               if c = 44 then parseElements numberText fuel r' (acc @ [v])
               else if c = 93 then Some (JArr (acc @ [v]), r')
               else None))"
| "parseMembers numberText 0 s acc = None"
| "parseMembers numberText (Suc fuel) s acc =
     (case skipWhiteSpace s of
        [] \<Rightarrow> None
      | c # r \<Rightarrow>
          if c \<noteq> 34 then None
          else
            (case parseString r of
               None \<Rightarrow> None
             | Some (k, r1) \<Rightarrow>
                 (case skipWhiteSpace r1 of
                    [] \<Rightarrow> None
                  | c1 # r2 \<Rightarrow>
                      if c1 \<noteq> 58 then None
                      else
                        (case parseValue numberText fuel r2 of
                           None \<Rightarrow> None
                         | Some (v, r3) \<Rightarrow>
                             (case skipWhiteSpace r3 of
                                [] \<Rightarrow> None
                              | c3 # r4 \<Rightarrow>
                                  if c3 = 44
                                  then parseMembers numberText fuel r4 (setProperty k v acc)
                                  else if c3 = 125 then Some (JObj (setProperty k v acc), r4)
                                  else None)))))"

definition JSON_parse :: "(jsstring \<Rightarrow> jsstring) \<Rightarrow> jsstring \<Rightarrow> json option" where
  "JSON_parse numberText t =
     (case parseValue numberText (length t) t of
        None \<Rightarrow> None
      | Some (v, rest) \<Rightarrow> if skipWhiteSpace rest = [] then Some v else None)"

section \<open>Persistence of the settings\<close>

text \<open>
  \<^verbatim>\<open>DEFAULT_SETTINGS\<close> and the build-time constant \<^verbatim>\<open>process.env.API_KEY\<close> are defined
  outside \<^verbatim>\<open>App.tsx\<close>; the functions below take them as parameters, together with
  the number conversion of \<^verbatim>\<open>JSON.parse\<close>.
\<close>

text \<open>The state of the first render, with the local storage the browser holds.\<close>

definition initialState :: "json \<Rightarrow> (jsstring \<rightharpoonup> jsstring) \<Rightarrow> state" where
  "initialState DEFAULT_SETTINGS storage =
     \<lparr>textInput = [], summary = [], audioBuffer = None, appState = IDLE, errorDetails = [],
      settings = DEFAULT_SETTINGS, isSettingsLoaded = False, audioContextRef = False,
      isFetchingNews = False, fetchStatus = [], selectedSourceUrl = [],
      localStorage = storage, summaryCalls = [], speechCalls = [], fetchCalls = [],
      timers = [], clock = 0\<rparr>"

text \<open>\<^verbatim>\<open>handleSaveSettings\<close>.\<close>

definition handleSaveSettings :: "json \<Rightarrow> state \<Rightarrow> state" where
  "handleSaveSettings newSettings st =
     st\<lparr>settings := newSettings,
        localStorage := (localStorage st)(js ''app_settings'' \<mapsto> JSON_stringify newSettings)\<rparr>"

text \<open>
  The updater \<^verbatim>\<open>s => ({...s, llm: {...s.llm, apiKey}, tts: {...s.tts, apiKey}})\<close> of the
  branch for a build-time key; \<open>None\<close> is the TypeError of reading a property of
  \<^verbatim>\<open>null\<close>.
\<close>

definition withApiKey :: "jsstring \<Rightarrow> json \<Rightarrow> json option" where
  "withApiKey apiKey s =
     do {
       llm \<leftarrow> Get (Some s) (js ''llm'');
       tts \<leftarrow> Get (Some s) (js ''tts'');
       Some (JObj
         (setProperty (js ''tts'') (JObj (setProperty (js ''apiKey'') (JStr apiKey) (spread [] tts)))
           (setProperty (js ''llm'') (JObj (setProperty (js ''apiKey'') (JStr apiKey) (spread [] llm)))
             (spread [] (Some s)))))
     }"

text \<open>
  The effect that runs once after the first render. A stored text that does not parse
  leaves the settings as they are, and so does an updater that throws.
\<close>

definition loadSettings ::
  "json \<Rightarrow> (jsstring \<Rightarrow> jsstring) \<Rightarrow> jsstring option \<Rightarrow> state \<Rightarrow> state" where
  "loadSettings DEFAULT_SETTINGS numberText API_KEY st =
     (let fromEnvironment =
            (case API_KEY of
               None \<Rightarrow> st
             | Some [] \<Rightarrow> st
             | Some (c # cs) \<Rightarrow>
                 (case withApiKey (c # cs) (settings st) of
                    None \<Rightarrow> st
                  | Some s \<Rightarrow> st\<lparr>settings := s\<rparr>));
          st' =
            (case localStorage st (js ''app_settings'') of
               None \<Rightarrow> fromEnvironment
             | Some [] \<Rightarrow> fromEnvironment
             | Some (c # cs) \<Rightarrow>
                 (case JSON_parse numberText (c # cs) of
                    None \<Rightarrow> st
                  | Some parsed \<Rightarrow>
                      st\<lparr>settings :=
                           JObj (spread (spread [] (Some DEFAULT_SETTINGS)) (Some parsed))\<rparr>))
      in st'\<lparr>isSettingsLoaded := True\<rparr>)"

text \<open>
  Saving in one session and opening the page again: the new session starts from the
  first render's state, with the storage the old one left. The first render evaluates
  \<^verbatim>\<open>settings.llm.apiKey\<close> on the default settings; when that throws, the component
  never mounts and the effect does not run.
\<close>

definition reload ::
  "json \<Rightarrow> (jsstring \<Rightarrow> jsstring) \<Rightarrow> jsstring option \<Rightarrow> state \<Rightarrow> state" where
  "reload DEFAULT_SETTINGS numberText API_KEY st =
     (if isConfigMissing DEFAULT_SETTINGS = None
      then initialState DEFAULT_SETTINGS (localStorage st)
      else loadSettings DEFAULT_SETTINGS numberText API_KEY
             (initialState DEFAULT_SETTINGS (localStorage st)))"

section \<open>Notions of the specification and example data\<close>

text \<open>
  The invariant of the data model: an audio buffer, if there is one, was synthesised from
  the summary text that is displayed.
\<close>

definition audioMatchesSummary :: "state \<Rightarrow> bool" where
  "audioMatchesSummary st \<longleftrightarrow>
     (case audioBuffer st of None \<Rightarrow> True | Some buffer \<Rightarrow> spoken buffer = summary st)"

text \<open>
  A settings object with the Chinese interface language and API keys, and the page right
  after its settings were loaded, holding that object (as it does when the defaults are
  \<open>exampleDefaults\<close> below, nothing is stored and the build-time key is \<^verbatim>\<open>key\<close>).
\<close>

definition exampleSettings :: json where
  "exampleSettings =
     JObj [(js ''language'', JStr (js ''zh-CN'')),
           (js ''llm'', JObj [(js ''apiKey'', JStr (js ''key''))]),
           (js ''tts'', JObj [(js ''apiKey'', JStr (js ''key''))])]"

definition pageLoaded :: state where
  "pageLoaded = (initialState exampleSettings Map.empty)\<lparr>isSettingsLoaded := True\<rparr>"

text \<open>
  An article of the feed as the interface describes it: an object with a string
  \<^verbatim>\<open>title\<close> and a \<^verbatim>\<open>content\<close> that is a string, \<^verbatim>\<open>null\<close> or not there.
\<close>

fun isArticle :: "json \<Rightarrow> bool" where
  "isArticle (JObj ps) =
     (case map_of ps (js ''title'') of
        Some (JStr t) \<Rightarrow>
          (case map_of ps (js ''content'') of
             None \<Rightarrow> True
           | Some JNull \<Rightarrow> True
           | Some (JStr c) \<Rightarrow> True
           | Some _ \<Rightarrow> False)
      | _ \<Rightarrow> False)"
| "isArticle _ = False"

text \<open>
  The titled block of the specification for the \<open>i\<close>-th article, counted from 1: the
  line \<^verbatim>\<open># Article i: title\<close>, an empty line and the content, which is the trimmed
  \<^verbatim>\<open>content\<close> or the placeholder. The content is blank when it is missing, \<^verbatim>\<open>null\<close>
  or trims to the empty string.
\<close>

definition titleOf :: "json \<Rightarrow> jsstring" where
  "titleOf a = (case Get (Some a) (js ''title'') of Some (Some (JStr t)) \<Rightarrow> t | _ \<Rightarrow> [])"

definition contentBlank :: "json \<Rightarrow> bool" where
  "contentBlank a \<longleftrightarrow>
     (case Get (Some a) (js ''content'') of
        Some None \<Rightarrow> True
      | Some (Some JNull) \<Rightarrow> True
      | Some (Some (JStr c)) \<Rightarrow> trim c = []
      | _ \<Rightarrow> False)"

definition shownContent :: "json \<Rightarrow> jsstring" where
  "shownContent a =
     (case Get (Some a) (js ''content'') of
        Some (Some (JStr c)) \<Rightarrow> if trim c = [] then js ''Content not available.'' else trim c
      | _ \<Rightarrow> js ''Content not available.'')"

definition titledBlock :: "nat \<Rightarrow> json \<Rightarrow> jsstring" where
  "titledBlock i a =
     js ''# Article '' @ decimal i @ js '': '' @ titleOf a @ [10, 10] @ shownContent a"

text \<open>Two articles, the second with \<^verbatim>\<open>null\<close> for its content.\<close>

definition exampleArticles :: "json list" where
  "exampleArticles =
     [JObj [(js ''title'', JStr (js ''Chips'')), (js ''content'', JStr (js '' New chips. ''))],
      JObj [(js ''title'', JStr (js ''Cars'')), (js ''content'', JNull)]]"

text \<open>Default settings without keys.\<close>

definition exampleDefaults :: json where
  "exampleDefaults =
     JObj [(js ''language'', JStr (js ''zh-CN'')),
           (js ''llm'', JObj [(js ''apiKey'', JStr [])]),
           (js ''tts'', JObj [(js ''apiKey'', JStr [])])]"


text \<open>
  The properties of an object are enumerated with the array indices first, in ascending
  order; \<open>enumerationOrder\<close> says of a list of properties that no array index comes
  after a key that is not a smaller array index, as in every list built by
  \<open>setProperty\<close>.
\<close>

fun enumerationOrder :: "(jsstring \<times> json) list \<Rightarrow> bool" where
  "enumerationOrder [] = True"
| "enumerationOrder [p] = True"
| "enumerationOrder (p # q # ps) =
     ((case arrayIndex (fst q) of None \<Rightarrow> True | Some n \<Rightarrow> indexBelow n p) \<and>
      enumerationOrder (q # ps))"

text \<open>
  The values that \<^verbatim>\<open>JSON.stringify\<close> writes without loss: \<^verbatim>\<open>null\<close>, booleans, strings,
  the numbers whose text is a JSON number that \<^verbatim>\<open>JSON.parse\<close> reads back as the same
  number, and the arrays and objects of such values. An object has every key once, in
  enumeration order. The numbers \<^verbatim>\<open>NaN\<close> and \<^verbatim>\<open>Infinity\<close> are not among them.
\<close>

fun storable :: "(jsstring \<Rightarrow> jsstring) \<Rightarrow> json \<Rightarrow> bool" where
  "storable numberText (JNum n) = (isJsonNumber n \<and> numberText n = n)"
| "storable numberText (JArr xs) = (\<forall>x\<in>set xs. storable numberText x)"
| "storable numberText (JObj ps) =
     (distinct (map fst ps) \<and> enumerationOrder ps \<and> (\<forall>p\<in>set ps. storable numberText (snd p)))"
| "storable numberText v = True"

text \<open>
  The nesting fuel that parsing the text of a value takes, what may follow a value in a
  JSON text (nothing, a comma or a closing bracket), what a value starts with, and the
  text of one member of an object.
\<close>

fun fuelFor :: "json \<Rightarrow> nat" where
  "fuelFor (JArr xs) = Suc (sum_list (map (\<lambda>x. Suc (fuelFor x)) xs))"
| "fuelFor (JObj ps) = Suc (sum_list (map (\<lambda>p. Suc (fuelFor (snd p))) ps))"
| "fuelFor v = Suc 0"

definition afterValue :: "jsstring \<Rightarrow> bool" where
  "afterValue rest \<longleftrightarrow> rest = [] \<or> hd rest = 44 \<or> hd rest = 93 \<or> hd rest = 125"

definition valueStart :: "jsstring \<Rightarrow> bool" where
  "valueStart t \<longleftrightarrow>
     (case t of [] \<Rightarrow> False | c # r \<Rightarrow> \<not> isJsonWhiteSpace c \<and> c \<noteq> 93 \<and> c \<noteq> 125)"

definition memberText :: "jsstring \<times> json \<Rightarrow> jsstring" where
  "memberText p = quote (fst p) @ [58] @ JSON_stringify (snd p)"

section \<open>Properties\<close>

subsection \<open>Strings and example data\<close>

lemma trim_Nil [simp]: "trim [] = []"
  by (simp add: trim_def)

text \<open>
  The two string methods mean what their names say: \<open>includes_str\<close> holds exactly when
  the pattern occurs in the string, and a string trims to the empty string exactly when
  it consists of white space.
\<close>

lemma startsWith_iff: "startsWith s p \<longleftrightarrow> (\<exists>b. s = p @ b)"
  by (induction s p rule: startsWith.induct) auto

lemma includes_str_iff: "includes_str s p \<longleftrightarrow> (\<exists>a b. s = a @ p @ b)"
proof (induction s)
  case Nil
  show ?case by auto
next
  case (Cons c cs)
  show ?case
  proof
    assume "includes_str (c # cs) p"
    then consider "startsWith (c # cs) p" | "includes_str cs p"
      by auto
    then show "\<exists>a b. c # cs = a @ p @ b"
    proof cases
      case 1
      then obtain b where "c # cs = p @ b"
        by (auto simp: startsWith_iff)
      then have "c # cs = [] @ p @ b"
        by simp
      then show ?thesis
        by blast
    next
      case 2
      with Cons.IH obtain a b where "cs = a @ p @ b"
        by auto
      then have "c # cs = (c # a) @ p @ b"
        by simp
      then show ?thesis
        by blast
    qed
  next
    assume "\<exists>a b. c # cs = a @ p @ b"
    then obtain a b where ab: "c # cs = a @ p @ b"
      by blast
    show "includes_str (c # cs) p"
    proof (cases a)
      case Nil
      with ab have "startsWith (c # cs) p"
        by (auto simp: startsWith_iff)
      then show ?thesis
        by simp
    next
      case (Cons c' a')
      with ab have "cs = a' @ p @ b"
        by simp
      with Cons.IH have "includes_str cs p"
        by blast
      then show ?thesis
        by simp
    qed
  qed
qed

lemma trim_eq_Nil_iff: "trim s = [] \<longleftrightarrow> (\<forall>c\<in>set s. isWhiteSpace c)"
proof (cases "dropWhile isWhiteSpace s")
  case Nil
  then have "trim s = []"
    by (simp only: trim_def rev.simps dropWhile.simps)
  moreover from Nil have "\<forall>c\<in>set s. isWhiteSpace c"
    by (simp only: dropWhile_eq_Nil_conv)
  ultimately show ?thesis
    by blast
next
  case (Cons c cs)
  then have c: "\<not> isWhiteSpace c"
    by (metis hd_dropWhile list.distinct(1) list.sel(1))
  from Cons have "c \<in> set s"
    by (metis list.set_intros(1) set_dropWhileD)
  with c have some: "\<not> (\<forall>c\<in>set s. isWhiteSpace c)"
    by blast
  from c have "\<not> (\<forall>x\<in>set (rev (c # cs)). isWhiteSpace x)"
    by auto
  then have "dropWhile isWhiteSpace (rev (c # cs)) \<noteq> []"
    using dropWhile_eq_Nil_conv [of isWhiteSpace "rev (c # cs)"] by blast
  with Cons have "trim s \<noteq> []"
    unfolding trim_def rev_is_Nil_conv by simp
  with some show ?thesis
    by blast
qed

lemma js_eq_Nil [simp]: "js s = [] \<longleftrightarrow> s = []"
  by (simp add: js_def)

lemma js_inj [simp]: "js s = js t \<longleftrightarrow> s = t"
  unfolding js_def by (rule inj_map_eq_map) (rule inj_of_char)

lemma exampleSettings_configured: "isConfigMissing exampleSettings = Some False"
  by (simp add: isConfigMissing_def exampleSettings_def js_def)

lemma exampleSettings_language:
  "Get (Some exampleSettings) (js ''language'') = Some (Some (JStr (js ''zh-CN'')))"
  by (simp add: exampleSettings_def)

lemma trim_news: "trim (js ''news'') = js ''news''"
  by (simp add: trim_def js_def isWhiteSpace_def)

lemma pageLoaded_reached:
  "loadSettings exampleDefaults numberText (Some (js ''key''))
     (initialState exampleDefaults Map.empty) = pageLoaded"
  by (simp add: loadSettings_def initialState_def pageLoaded_def exampleDefaults_def
      exampleSettings_def withApiKey_def spread_def setProperty_def arrayIndex_def
      isDigit_def js_def)

lemmas ui_defs =
  typeText_def clickGenerateSummary_def rendered_def summaryButtonDisabled_def
  exampleSettings_configured trim_news handleGenerateSummary_def summaryFulfilled_def
  clickGenerateAudio_def audioButtonShown_def handleGenerateAudio_def speechFulfilled_def
  without_def

subsection \<open>Starting a summary\<close>

text \<open>
  When the text is not blank, the handler clears the summary and the audio buffer and
  enters \<open>GENERATING_SUMMARY\<close>, whatever the state before, and leaves the call of the
  summarizer outstanding.
\<close>

lemma handleGenerateSummary_clears:
  "trim (textInput st) \<noteq> [] \<Longrightarrow>
     summary (handleGenerateSummary st) = [] \<and>
     audioBuffer (handleGenerateSummary st) = None \<and>
     appState (handleGenerateSummary st) = GENERATING_SUMMARY \<and>
     summaryCalls (handleGenerateSummary st) = summaryCalls st @ [(textInput st, settings st)]"
  by (simp add: handleGenerateSummary_def)

text \<open>
  C1. The invariant that the claim derives from this clearing does not hold. The user
  types a text, has it summarised (\<open>first\<close>), asks for the audio and, while the speech
  call is outstanding, clicks the summary button again, which is enabled in the state
  \<open>GENERATING_AUDIO\<close>. The speech call then fulfils, and the second summary (\<open>second\<close>)
  arrives. The page ends in \<open>READY\<close>, showing the second summary with an audio buffer
  that was synthesised from the first.
\<close>

theorem C1_stale_audio_buffer:
  "run pageLoaded
     [TypeText (js ''news''), ClickGenerateSummary, SummaryFulfilled 0 (js ''first''),
      ClickGenerateAudio, ClickGenerateSummary, SpeechFulfilled 0 7,
      SummaryFulfilled 0 (js ''second'')] =
   pageLoaded\<lparr>textInput := js ''news'', summary := js ''second'', appState := READY,
     audioBuffer := Some \<lparr>spoken = js ''first'', samples = 7\<rparr>, audioContextRef := True\<rparr> \<and>
   \<not> audioMatchesSummary
     (run pageLoaded
        [TypeText (js ''news''), ClickGenerateSummary, SummaryFulfilled 0 (js ''first''),
         ClickGenerateAudio, ClickGenerateSummary, SpeechFulfilled 0 7,
         SummaryFulfilled 0 (js ''second'')])"
proof -
  let ?s1 = "pageLoaded\<lparr>textInput := js ''news''\<rparr>"
  let ?s2 = "?s1\<lparr>appState := GENERATING_SUMMARY,
                   summaryCalls := [(js ''news'', exampleSettings)]\<rparr>"
  let ?s3 = "?s1\<lparr>appState := READY, summary := js ''first''\<rparr>"
  let ?s4 = "?s3\<lparr>appState := GENERATING_AUDIO, audioContextRef := True,
                   speechCalls := [(js ''first'', exampleSettings)]\<rparr>"
  let ?s5 = "?s4\<lparr>appState := GENERATING_SUMMARY, summary := [],
                   summaryCalls := [(js ''news'', exampleSettings)]\<rparr>"
  let ?s6 = "?s5\<lparr>appState := READY, speechCalls := [],
                   audioBuffer := Some \<lparr>spoken = js ''first'', samples = 7\<rparr>\<rparr>"
  let ?s7 = "?s6\<lparr>summary := js ''second'', summaryCalls := []\<rparr>"
  have 1: "step pageLoaded (TypeText (js ''news'')) = ?s1"
    by (simp add: pageLoaded_def initialState_def ui_defs)
  have 2: "step ?s1 ClickGenerateSummary = ?s2"
    by (simp add: pageLoaded_def initialState_def ui_defs)
  have 3: "step ?s2 (SummaryFulfilled 0 (js ''first'')) = ?s3"
    by (simp add: pageLoaded_def initialState_def ui_defs)
  have 4: "step ?s3 ClickGenerateAudio = ?s4"
    by (simp add: pageLoaded_def initialState_def ui_defs)
  have 5: "step ?s4 ClickGenerateSummary = ?s5"
    by (simp add: pageLoaded_def initialState_def ui_defs)
  have 6: "step ?s5 (SpeechFulfilled 0 7) = ?s6"
    by (simp add: pageLoaded_def initialState_def ui_defs)
  have 7: "step ?s6 (SummaryFulfilled 0 (js ''second'')) = ?s7"
    by (simp add: pageLoaded_def initialState_def ui_defs)
  have end_state: "?s7 =
      pageLoaded\<lparr>textInput := js ''news'', summary := js ''second'', appState := READY,
        audioBuffer := Some \<lparr>spoken = js ''first'', samples = 7\<rparr>, audioContextRef := True\<rparr>"
    by (simp add: pageLoaded_def initialState_def)
  have stale: "\<not> audioMatchesSummary ?s7"
    by (simp add: audioMatchesSummary_def)
  from end_state stale show ?thesis
    unfolding run_def foldl.simps 1 2 3 4 5 6 7 by simp
qed

subsection \<open>Guards against a second request of the same kind\<close>

text \<open>
  The fetcher has a flag of its own, and the buttons of the two other operations are
  disabled while the application state names their operation.
\<close>

lemma fetchFeed_guard: "isFetchingNews st \<Longrightarrow> fetchFeed url sourceName st = st"
  by (simp add: fetchFeed_def)

lemma sourceControls_guard:
  "isFetchingNews st \<Longrightarrow> selectSource url st = st \<and> clickRandom k st = st"
  by (simp add: selectSource_def clickRandom_def sourceControlsDisabled_def)

lemma clickGenerateSummary_guard:
  "appState st = GENERATING_SUMMARY \<Longrightarrow> clickGenerateSummary st = st"
  by (simp add: clickGenerateSummary_def summaryButtonDisabled_def)

lemma clickGenerateAudio_guard:
  "appState st = GENERATING_AUDIO \<Longrightarrow> clickGenerateAudio st = st"
  by (simp add: clickGenerateAudio_def)

text \<open>
  C3. The application state does not stay \<open>GENERATING_AUDIO\<close> for as long as a speech
  call is outstanding, so the guard of the audio button does not keep a second call
  from starting. After the user asked for the audio of the first summary, started a new
  summary and received it, the first speech call is still outstanding, the audio button
  is shown and enabled, and a click on it starts a second speech call.
\<close>

theorem C3_second_speech_call_started:
  "speechCalls
     (run pageLoaded
        [TypeText (js ''news''), ClickGenerateSummary, SummaryFulfilled 0 (js ''first''),
         ClickGenerateAudio, ClickGenerateSummary, SummaryFulfilled 0 (js ''second'')]) =
     [(js ''first'', exampleSettings)] \<and>
   speechCalls
     (run pageLoaded
        [TypeText (js ''news''), ClickGenerateSummary, SummaryFulfilled 0 (js ''first''),
         ClickGenerateAudio, ClickGenerateSummary, SummaryFulfilled 0 (js ''second''),
         ClickGenerateAudio]) =
     [(js ''first'', exampleSettings), (js ''second'', exampleSettings)]"
proof -
  let ?s1 = "pageLoaded\<lparr>textInput := js ''news''\<rparr>"
  let ?s2 = "?s1\<lparr>appState := GENERATING_SUMMARY,
                   summaryCalls := [(js ''news'', exampleSettings)]\<rparr>"
  let ?s3 = "?s1\<lparr>appState := READY, summary := js ''first''\<rparr>"
  let ?s4 = "?s3\<lparr>appState := GENERATING_AUDIO, audioContextRef := True,
                   speechCalls := [(js ''first'', exampleSettings)]\<rparr>"
  let ?s5 = "?s4\<lparr>appState := GENERATING_SUMMARY, summary := [],
                   summaryCalls := [(js ''news'', exampleSettings)]\<rparr>"
  let ?s6 = "?s5\<lparr>appState := READY, summary := js ''second'', summaryCalls := []\<rparr>"
  let ?s7 = "?s6\<lparr>appState := GENERATING_AUDIO,
                   speechCalls := [(js ''first'', exampleSettings), (js ''second'', exampleSettings)]\<rparr>"
  have 1: "step pageLoaded (TypeText (js ''news'')) = ?s1"
    by (simp add: pageLoaded_def initialState_def ui_defs)
  have 2: "step ?s1 ClickGenerateSummary = ?s2"
    by (simp add: pageLoaded_def initialState_def ui_defs)
  have 3: "step ?s2 (SummaryFulfilled 0 (js ''first'')) = ?s3"
    by (simp add: pageLoaded_def initialState_def ui_defs)
  have 4: "step ?s3 ClickGenerateAudio = ?s4"
    by (simp add: pageLoaded_def initialState_def ui_defs)
  have 5: "step ?s4 ClickGenerateSummary = ?s5"
    by (simp add: pageLoaded_def initialState_def ui_defs)
  have 6: "step ?s5 (SummaryFulfilled 0 (js ''second'')) = ?s6"
    by (simp add: pageLoaded_def initialState_def ui_defs)
  have 7: "step ?s6 ClickGenerateAudio = ?s7"
    by (simp add: pageLoaded_def initialState_def ui_defs)
  show ?thesis
    unfolding run_def foldl.simps 1 2 3 4 5 6 7 by simp
qed

subsection \<open>Preconditions of the summary action\<close>

text \<open>
  C4. A click on the summary button takes the page from \<open>IDLE\<close> to
  \<open>GENERATING_SUMMARY\<close> only when the article text is not empty and no API key is
  missing (\<^verbatim>\<open>isConfigMissing\<close> is false); when the text is empty or the key is missing,
  the click changes nothing. And the transition does happen from \<open>IDLE\<close> when the text
  is not blank and the key is there.
\<close>

theorem C4_generate_summary_preconditions:
  "(appState st = IDLE \<and> appState (clickGenerateSummary st) = GENERATING_SUMMARY \<longrightarrow>
      textInput st \<noteq> [] \<and> isConfigMissing (settings st) = Some False) \<and>
   (textInput st = [] \<or> isConfigMissing (settings st) = Some True \<longrightarrow>
      clickGenerateSummary st = st) \<and>
   (rendered st \<and> trim (textInput st) \<noteq> [] \<and> appState st = IDLE \<and>
    isConfigMissing (settings st) = Some False \<longrightarrow>
      appState (clickGenerateSummary st) = GENERATING_SUMMARY)"
proof (intro conjI impI)
  assume a: "appState st = IDLE \<and> appState (clickGenerateSummary st) = GENERATING_SUMMARY"
  then have changed: "clickGenerateSummary st \<noteq> st"
    by auto
  then have enabled: "rendered st" "\<not> summaryButtonDisabled st"
    by (auto simp: clickGenerateSummary_def split: if_splits)
  from enabled(2) have "trim (textInput st) \<noteq> []"
    by (simp add: summaryButtonDisabled_def)
  then show "textInput st \<noteq> []"
    by auto
  from enabled show "isConfigMissing (settings st) = Some False"
    by (auto simp: rendered_def summaryButtonDisabled_def)
next
  assume "textInput st = [] \<or> isConfigMissing (settings st) = Some True"
  then have "summaryButtonDisabled st"
    by (auto simp: summaryButtonDisabled_def)
  then show "clickGenerateSummary st = st"
    by (simp add: clickGenerateSummary_def)
next
  assume "rendered st \<and> trim (textInput st) \<noteq> [] \<and> appState st = IDLE \<and>
    isConfigMissing (settings st) = Some False"
  then show "appState (clickGenerateSummary st) = GENERATING_SUMMARY"
    by (simp add: clickGenerateSummary_def summaryButtonDisabled_def handleGenerateSummary_def)
qed

theorem C4_generate_summary_preconditions_witness:
  "appState (pageLoaded\<lparr>textInput := js ''news''\<rparr>) = IDLE \<and>
   appState (clickGenerateSummary (pageLoaded\<lparr>textInput := js ''news''\<rparr>)) = GENERATING_SUMMARY \<and>
   textInput (pageLoaded\<lparr>textInput := js ''news''\<rparr>) \<noteq> [] \<and>
   isConfigMissing (settings (pageLoaded\<lparr>textInput := js ''news''\<rparr>)) = Some False \<and>
   textInput pageLoaded = [] \<and>
   clickGenerateSummary pageLoaded = pageLoaded"
proof -
  let ?st = "pageLoaded\<lparr>textInput := js ''news''\<rparr>"
  have r: "rendered ?st \<and> trim (textInput ?st) \<noteq> [] \<and> appState ?st = IDLE \<and>
    isConfigMissing (settings ?st) = Some False"
    by (simp add: pageLoaded_def initialState_def rendered_def exampleSettings_configured trim_news)
  have e: "textInput pageLoaded = []"
    by (simp add: pageLoaded_def initialState_def)
  from r e C4_generate_summary_preconditions [of ?st]
    C4_generate_summary_preconditions [of pageLoaded]
  show ?thesis
    by simp
qed

subsection \<open>Errors of the remote services\<close>

lemma appState_handleError [simp]: "appState (handleError s error st) = ERROR"
  by (simp add: handleError_def Let_def split: option.split)

lemma includes_SAFETY_example: "includes_str (js ''blocked: SAFETY'') (js ''SAFETY'')"
  by (simp add: js_def)

lemma not_includes_SAFETY_example: "\<not> includes_str (js ''quota exceeded'') (js ''SAFETY'')"
  by (simp add: js_def)

text \<open>
  C6, as amended. For every error whose message contains \<^verbatim>\<open>SAFETY\<close>, when the language
  of the settings is \<^verbatim>\<open>zh-CN\<close> the error details are the fixed Chinese text, given here
  by its eleven code units, and they are not the message of the error; for every other
  error whose message is not empty, the error details are the message; and the state
  becomes \<open>ERROR\<close> in both cases.
\<close>

theorem C6_safety_message_localized:
  "(includes_str (message error) (js ''SAFETY'') \<and>
    Get (Some s) (js ''language'') = Some (Some (JStr (js ''zh-CN''))) \<longrightarrow>
      errorDetails (handleError s error st) =
        [0x5185, 0x5BB9, 0x88AB, 0x5B89, 0x5168, 0x8FC7, 0x6EE4, 0x5668, 0x62E6, 0x622A, 0x3002] \<and>
      errorDetails (handleError s error st) \<noteq> message error \<and>
      appState (handleError s error st) = ERROR) \<and>
   (message error \<noteq> [] \<and> \<not> includes_str (message error) (js ''SAFETY'') \<longrightarrow>
      errorDetails (handleError s error st) = message error \<and>
      appState (handleError s error st) = ERROR)"
proof (intro conjI impI)
  assume a: "includes_str (message error) (js ''SAFETY'') \<and>
    Get (Some s) (js ''language'') = Some (Some (JStr (js ''zh-CN'')))"
  then have "message error \<noteq> []"
    by (cases "message error") auto
  with a show details: "errorDetails (handleError s error st) =
      [0x5185, 0x5BB9, 0x88AB, 0x5B89, 0x5168, 0x8FC7, 0x6EE4, 0x5668, 0x62E6, 0x622A, 0x3002]"
    by (simp add: handleError_def safety_zh_CN_def)
  from a obtain u v where "message error = u @ js ''SAFETY'' @ v"
    unfolding includes_str_iff by blast
  then have "83 \<in> set (message error)"
    by (simp add: js_def)
  moreover have "83 \<notin> set ([0x5185, 0x5BB9, 0x88AB, 0x5B89, 0x5168, 0x8FC7, 0x6EE4, 0x5668, 0x62E6, 0x622A, 0x3002] :: nat list)"
    by simp
  ultimately show "errorDetails (handleError s error st) \<noteq> message error"
    unfolding details by metis
next
  assume "message error \<noteq> [] \<and> \<not> includes_str (message error) (js ''SAFETY'')"
  then show "errorDetails (handleError s error st) = message error"
    by (simp add: handleError_def)
qed simp_all

theorem C6_safety_message_localized_witness:
  "includes_str (message \<lparr>name = js ''Error'', message = js ''blocked: SAFETY''\<rparr>) (js ''SAFETY'') \<and>
   errorDetails (handleError exampleSettings
      \<lparr>name = js ''Error'', message = js ''blocked: SAFETY''\<rparr> pageLoaded) =
     [0x5185, 0x5BB9, 0x88AB, 0x5B89, 0x5168, 0x8FC7, 0x6EE4, 0x5668, 0x62E6, 0x622A, 0x3002] \<and>
   errorDetails (handleError exampleSettings
      \<lparr>name = js ''Error'', message = js ''blocked: SAFETY''\<rparr> pageLoaded) \<noteq>
     js ''blocked: SAFETY'' \<and>
   \<not> includes_str (message \<lparr>name = js ''Error'', message = js ''quota exceeded''\<rparr>) (js ''SAFETY'') \<and>
   errorDetails (handleError exampleSettings
      \<lparr>name = js ''Error'', message = js ''quota exceeded''\<rparr> pageLoaded) = js ''quota exceeded''"
  using C6_safety_message_localized
      [of "\<lparr>name = js ''Error'', message = js ''blocked: SAFETY''\<rparr>" exampleSettings pageLoaded]
    C6_safety_message_localized
      [of "\<lparr>name = js ''Error'', message = js ''quota exceeded''\<rparr>" exampleSettings pageLoaded]
  by (auto simp add: includes_SAFETY_example not_includes_SAFETY_example exampleSettings_language)

text \<open>
  The claim as it was stated fails for an error with an empty message, such as
  \<^verbatim>\<open>new Error('')\<close>: its message does not contain \<^verbatim>\<open>SAFETY\<close>, and the error details
  become \<^verbatim>\<open>String(error)\<close>, the text \<^verbatim>\<open>Error\<close>, which is not the message.
\<close>

theorem C6_empty_message_counterexample:
  "\<not> includes_str (message \<lparr>name = js ''Error'', message = []\<rparr>) (js ''SAFETY'') \<and>
   errorDetails (handleError exampleSettings \<lparr>name = js ''Error'', message = []\<rparr> pageLoaded) =
     js ''Error'' \<and>
   js ''Error'' \<noteq> message \<lparr>name = js ''Error'', message = []\<rparr>"
  by (simp add: handleError_def String_of_error_def js_def)

subsection \<open>The summary action on an empty text\<close>

text \<open>
  C7. When the article text is the empty string, the generate-summary action has no
  effect, whether it is the handler that is called or the button that is clicked: the
  whole state, and with it the application state, the summary, the audio buffer and the
  error details, is the one before, and no request is started.
\<close>

theorem C7_empty_input_no_effect:
  "handleGenerateSummary (st\<lparr>textInput := []\<rparr>) = st\<lparr>textInput := []\<rparr> \<and>
   clickGenerateSummary (st\<lparr>textInput := []\<rparr>) = st\<lparr>textInput := []\<rparr>"
  by (simp add: handleGenerateSummary_def clickGenerateSummary_def)

subsection \<open>The feed fetcher\<close>

lemma decimal_not_Nil [simp]: "decimal n \<noteq> []"
  by (subst decimal.simps) simp

lemma decimal_eq_zero [simp]: "decimal n = js ''0'' \<longleftrightarrow> n = 0"
  by (subst decimal.simps) (auto simp: js_def)

lemma noArticles_JArr [simp]: "noArticles (JArr xs) \<longleftrightarrow> xs = []"
  by (simp add: noArticles_def)

lemma noArticles_JNull [simp]: "noArticles JNull"
  by (simp add: noArticles_def)

lemma fetchSettled_failure:
  "fetchedText sourceName outcome = None \<Longrightarrow>
     fetchSettled sourceName outcome st =
       st\<lparr>fetchStatus := js ''Failed to fetch'', timers := timers st @ [clock st + 3000],
          isFetchingNews := False\<rparr>"
  by (simp add: fetchSettled_def fetchFinally_def fetchFailed_def)

text \<open>
  C5. When the response is not OK, or its article list is empty or absent
  (\<^verbatim>\<open>!articles || articles.length === 0\<close>), the article text is the one before, the
  status is \<^verbatim>\<open>Failed to fetch\<close>, and a timer is set that is due 3000 ms later; once
  3000 ms or more have passed the status is empty, and until then the status stays
  unless an older timer comes due.
\<close>

theorem C5_failed_fetch:
  assumes "\<not> ok \<or> body = Body articles \<and> noArticles articles"
  shows "textInput (fetchSettled sourceName (Response ok body) st) = textInput st \<and>
         fetchStatus (fetchSettled sourceName (Response ok body) st) = js ''Failed to fetch'' \<and>
         timers (fetchSettled sourceName (Response ok body) st) = timers st @ [clock st + 3000] \<and>
         (\<forall>ms. 3000 \<le> ms \<longrightarrow>
            fetchStatus (elapse ms (fetchSettled sourceName (Response ok body) st)) = []) \<and>
         (\<forall>ms. ms < 3000 \<and> \<not> list_ex (\<lambda>due. due \<le> clock st + ms) (timers st) \<longrightarrow>
            fetchStatus (elapse ms (fetchSettled sourceName (Response ok body) st)) =
              js ''Failed to fetch'')"
proof -
  from assms have "fetchedText sourceName (Response ok body) = None"
    by (auto simp: fetchedText_def)
  then have "fetchSettled sourceName (Response ok body) st =
      st\<lparr>fetchStatus := js ''Failed to fetch'', timers := timers st @ [clock st + 3000],
         isFetchingNews := False\<rparr>"
    by (rule fetchSettled_failure)
  then show ?thesis
    by (simp add: elapse_def Let_def)
qed

theorem C5_failed_fetch_witness:
  "textInput (fetchSettled (js ''Wired'') (Response False NotJSON)
      (pageLoaded\<lparr>textInput := js ''news''\<rparr>)) = js ''news'' \<and>
   fetchStatus (fetchSettled (js ''Wired'') (Response True (Body (JArr []))) pageLoaded) =
     js ''Failed to fetch'' \<and>
   fetchStatus (elapse 3000 (fetchSettled (js ''Wired'') (Response True (Body JNull)) pageLoaded)) = []"
  using C5_failed_fetch [of False NotJSON JNull "js ''Wired''" "pageLoaded\<lparr>textInput := js ''news''\<rparr>"]
    C5_failed_fetch [of True "Body (JArr [])" "JArr []" "js ''Wired''" pageLoaded]
    C5_failed_fetch [of True "Body JNull" "JNull" "js ''Wired''" pageLoaded]
  by simp

text \<open>
  C9. A call of \<^verbatim>\<open>fetchFeed\<close> that passes the guard either leaves its request
  outstanding or, when \<^verbatim>\<open>encodeURIComponent\<close> throws, has reset the flag already; and
  whenever an outstanding request settles, in whatever state and however it settles, the
  flag is false afterwards.
\<close>

theorem C9_fetch_flag_reset:
  "(\<not> isFetchingNews st \<and> isWellFormed url \<longrightarrow>
      fetchCalls (fetchFeed url sourceName st) = fetchCalls st @ [(url, sourceName)]) \<and>
   (\<not> isFetchingNews st \<and> \<not> isWellFormed url \<longrightarrow>
      \<not> isFetchingNews (fetchFeed url sourceName st)) \<and>
   (i < length (fetchCalls st') \<longrightarrow> \<not> isFetchingNews (step st' (FetchSettled i outcome))) \<and>
   \<not> isFetchingNews (fetchSettled sourceName outcome st')"
  by (simp add: fetchFeed_def Let_def fetchSettled_def fetchFinally_def fetchFailed_def)

theorem C9_fetch_flag_reset_witness:
  "\<not> isFetchingNews pageLoaded \<and> isWellFormed (js ''https://36kr.com/feed'') \<and>
   fetchCalls (fetchFeed (js ''https://36kr.com/feed'') (js ''36Kr'') pageLoaded) =
     [(js ''https://36kr.com/feed'', js ''36Kr'')] \<and>
   \<not> isFetchingNews
       (step (fetchFeed (js ''https://36kr.com/feed'') (js ''36Kr'') pageLoaded)
          (FetchSettled 0 Rejected)) \<and>
   \<not> isWellFormed [0xD800] \<and>
   \<not> isFetchingNews (fetchFeed [0xD800] (js ''36Kr'') pageLoaded)"
proof -
  have a: "\<not> isFetchingNews pageLoaded" "fetchCalls pageLoaded = []"
    by (simp_all add: pageLoaded_def initialState_def)
  have b: "isWellFormed (js ''https://36kr.com/feed'')"
    by (simp add: js_def isHighSurrogate_def isLowSurrogate_def)
  have c: "\<not> isWellFormed [0xD800]"
    by (simp add: isHighSurrogate_def)
  from a b c
    C9_fetch_flag_reset [of pageLoaded "js ''https://36kr.com/feed''" "js ''36Kr''" 0
      "fetchFeed (js ''https://36kr.com/feed'') (js ''36Kr'') pageLoaded" Rejected]
    C9_fetch_flag_reset [of pageLoaded "[0xD800]" "js ''36Kr''"]
  show ?thesis
    by simp
qed

subsection \<open>The assembled article text\<close>

lemma those_map_Some:
  "(\<And>x. x \<in> set xs \<Longrightarrow> f x = Some (g x)) \<Longrightarrow> those (map f xs) = Some (map g xs)"
  by (induction xs) simp_all

lemma articleBlock_isArticle:
  "isArticle a \<Longrightarrow> articleBlock i a = Some (titledBlock (i + 1) a)"
  by (cases a)
    (auto simp: articleBlock_def titledBlock_def titleOf_def shownContent_def
      contentOrPlaceholder_def split: option.splits json.splits)

lemma formatArticles_articles:
  assumes "\<forall>a\<in>set (take 5 xs). isArticle a"
  shows "formatArticles (JArr xs) =
    Some (join separator (map (\<lambda>k. titledBlock (k + 1) (xs ! k)) [0..<min 5 (length xs)]))"
proof -
  let ?ys = "take 5 xs"
  have "those (map (\<lambda>(i, a). articleBlock i a) (zip [0..<length ?ys] ?ys)) =
      Some (map (\<lambda>(i, a). titledBlock (i + 1) a) (zip [0..<length ?ys] ?ys))"
  proof (rule those_map_Some)
    fix x assume "x \<in> set (zip [0..<length ?ys] ?ys)"
    then have "snd x \<in> set ?ys"
      by (metis prod.collapse set_zip_rightD)
    with assms have "isArticle (snd x)"
      by blast
    then show "(case x of (i, a) \<Rightarrow> articleBlock i a) = Some (case x of (i, a) \<Rightarrow> titledBlock (i + 1) a)"
      by (cases x) (simp add: articleBlock_isArticle)
  qed
  moreover have "map (\<lambda>(i, a). titledBlock (i + 1) a) (zip [0..<length ?ys] ?ys) =
      map (\<lambda>k. titledBlock (k + 1) (xs ! k)) [0..<min 5 (length xs)]"
    by (rule nth_equalityI) (simp_all add: min.commute)
  ultimately show ?thesis
    by (simp add: formatArticles_def)
qed

lemma fetchSettled_articles:
  assumes "xs \<noteq> []" and "\<forall>a\<in>set (take 5 xs). isArticle a"
  shows "fetchSettled sourceName (Response True (Body (JArr xs))) st =
     st\<lparr>textInput :=
          articleText sourceName
            (join separator (map (\<lambda>k. titledBlock (k + 1) (xs ! k)) [0..<min 5 (length xs)])),
        fetchStatus := [], isFetchingNews := False\<rparr>"
  using assms by (simp add: fetchSettled_def fetchedText_def formatArticles_articles fetchFinally_def)

lemma exampleArticles_facts:
  "exampleArticles \<noteq> []" "\<forall>a\<in>set (take 5 exampleArticles). isArticle a"
  "1 < min 5 (length exampleArticles)" "contentBlank (exampleArticles ! 1)"
  by (simp_all add: exampleArticles_def contentBlank_def)

lemma exampleArticles_blocks:
  "js ''# Article '' @ decimal (0 + 1) @ js '': '' @ titleOf (exampleArticles ! 0) @ [10, 10] @
     shownContent (exampleArticles ! 0) =
     js ''# Article 1: Chips'' @ [10, 10] @ js ''New chips.''"
  "js ''# Article '' @ decimal (1 + 1) @ js '': '' @ titleOf (exampleArticles ! 1) @ [10, 10] @
     shownContent (exampleArticles ! 1) =
     js ''# Article 2: Cars'' @ [10, 10] @ js ''Content not available.''"
  by (simp_all add: exampleArticles_def titleOf_def shownContent_def
      decimal.simps trim_def isWhiteSpace_def js_def)

lemma exampleArticles_second:
  "min 5 (length exampleArticles) = 2" "decimal (1 + 1) = js ''2''"
  "titleOf (exampleArticles ! 1) = js ''Cars''"
  by (simp_all add: exampleArticles_def titleOf_def decimal.simps js_def)

text \<open>
  C2. When the response is OK and its body is a non-empty array whose first five
  elements are articles, the article text after the fetch is the source label
  \<^verbatim>\<open>Source: \<close> with the name of the source, between the brackets U+3010 and U+3011, an
  empty line, and then exactly \<open>min 5 n\<close> blocks joined by the separator made of an empty
  line, \<^verbatim>\<open>---\<close> and an empty line; the \<open>k\<close>-th block is the title line
  \<^verbatim>\<open># Article k: title\<close> of the \<open>k\<close>-th article, an empty line and its content. The text
  before the fetch plays no part in it.
\<close>

theorem C2_assembled_text:
  assumes "xs \<noteq> []" and "\<forall>a\<in>set (take 5 xs). isArticle a"
  shows "\<exists>blocks.
           length blocks = min 5 (length xs) \<and>
           (\<forall>k<length blocks. blocks ! k =
              js ''# Article '' @ decimal (k + 1) @ js '': '' @ titleOf (xs ! k) @ [10, 10] @
              shownContent (xs ! k)) \<and>
           textInput (fetchSettled sourceName (Response True (Body (JArr xs))) st) =
             [0x3010] @ js ''Source: '' @ sourceName @ [0x3011] @ [10, 10] @
             join ([10, 10] @ js ''---'' @ [10, 10]) blocks"
proof (intro exI conjI)
  let ?blocks = "map (\<lambda>k. titledBlock (k + 1) (xs ! k)) [0..<min 5 (length xs)]"
  show "length ?blocks = min 5 (length xs)"
    by simp
  show "\<forall>k<length ?blocks. ?blocks ! k =
      js ''# Article '' @ decimal (k + 1) @ js '': '' @ titleOf (xs ! k) @ [10, 10] @
      shownContent (xs ! k)"
    by (simp add: titledBlock_def)
  show "textInput (fetchSettled sourceName (Response True (Body (JArr xs))) st) =
      [0x3010] @ js ''Source: '' @ sourceName @ [0x3011] @ [10, 10] @
      join ([10, 10] @ js ''---'' @ [10, 10]) ?blocks"
    by (simp add: fetchSettled_articles [OF assms] articleText_def separator_def)
qed

theorem C2_assembled_text_witness:
  "textInput (fetchSettled (js ''Wired'') (Response True (Body (JArr exampleArticles)))
      (pageLoaded\<lparr>textInput := js ''news''\<rparr>)) =
   [0x3010] @ js ''Source: Wired'' @ [0x3011] @ [10, 10] @
   js ''# Article 1: Chips'' @ [10, 10] @ js ''New chips.'' @
   [10, 10] @ js ''---'' @ [10, 10] @
   js ''# Article 2: Cars'' @ [10, 10] @ js ''Content not available.''"
proof -
  from C2_assembled_text [OF exampleArticles_facts(1,2), of "js ''Wired''"
      "pageLoaded\<lparr>textInput := js ''news''\<rparr>"]
  obtain blocks where blocks: "length blocks = 2"
      "\<forall>k<length blocks. blocks ! k =
         js ''# Article '' @ decimal (k + 1) @ js '': '' @ titleOf (exampleArticles ! k) @
         [10, 10] @ shownContent (exampleArticles ! k)"
      "textInput (fetchSettled (js ''Wired'') (Response True (Body (JArr exampleArticles)))
         (pageLoaded\<lparr>textInput := js ''news''\<rparr>)) =
       [0x3010] @ js ''Source: '' @ js ''Wired'' @ [0x3011] @ [10, 10] @
       join ([10, 10] @ js ''---'' @ [10, 10]) blocks"
    unfolding exampleArticles_second(1) by blast
  from blocks(1) obtain b0 b1 where two: "blocks = [b0, b1]"
    by (cases blocks; cases "tl blocks") auto
  from blocks(1) blocks(2) [rule_format, of 0] blocks(2) [rule_format, of 1] two
  have "b0 = js ''# Article '' @ decimal (0 + 1) @ js '': '' @ titleOf (exampleArticles ! 0) @
        [10, 10] @ shownContent (exampleArticles ! 0)"
    "b1 = js ''# Article '' @ decimal (1 + 1) @ js '': '' @ titleOf (exampleArticles ! 1) @
        [10, 10] @ shownContent (exampleArticles ! 1)"
    by simp_all
  then have "b0 = js ''# Article 1: Chips'' @ [10, 10] @ js ''New chips.''"
    "b1 = js ''# Article 2: Cars'' @ [10, 10] @ js ''Content not available.''"
    by (simp_all only: exampleArticles_blocks)
  with two blocks(3) show ?thesis
    by (simp add: js_def)
qed

text \<open>
  C10. In such a fetch, the block of an article among the first five whose content is
  missing, \<^verbatim>\<open>null\<close> or blank is its title line, an empty line and the placeholder
  \<^verbatim>\<open>Content not available.\<close>, and it stands at its place among the blocks of the
  article text, after the source label and between the separators.
\<close>

theorem C10_placeholder:
  assumes "xs \<noteq> []" and "\<forall>a\<in>set (take 5 xs). isArticle a"
    and "k < min 5 (length xs)" and "contentBlank (xs ! k)"
  shows "\<exists>blocks.
           length blocks = min 5 (length xs) \<and>
           blocks ! k =
             js ''# Article '' @ decimal (k + 1) @ js '': '' @ titleOf (xs ! k) @ [10, 10] @
             js ''Content not available.'' \<and>
           textInput (fetchSettled sourceName (Response True (Body (JArr xs))) st) =
             [0x3010] @ js ''Source: '' @ sourceName @ [0x3011] @ [10, 10] @
             join ([10, 10] @ js ''---'' @ [10, 10]) blocks"
proof (intro exI conjI)
  let ?blocks = "map (\<lambda>k. titledBlock (k + 1) (xs ! k)) [0..<min 5 (length xs)]"
  show "length ?blocks = min 5 (length xs)"
    by simp
  from assms(4) have "shownContent (xs ! k) = js ''Content not available.''"
    by (auto simp: contentBlank_def shownContent_def split: option.splits json.splits)
  with assms(3) show "?blocks ! k =
      js ''# Article '' @ decimal (k + 1) @ js '': '' @ titleOf (xs ! k) @ [10, 10] @
      js ''Content not available.''"
    by (simp add: titledBlock_def)
  show "textInput (fetchSettled sourceName (Response True (Body (JArr xs))) st) =
      [0x3010] @ js ''Source: '' @ sourceName @ [0x3011] @ [10, 10] @
      join ([10, 10] @ js ''---'' @ [10, 10]) ?blocks"
    by (simp add: fetchSettled_articles [OF assms(1,2)] articleText_def separator_def)
qed

theorem C10_placeholder_witness:
  "\<exists>blocks. length blocks = 2 \<and>
     blocks ! 1 =
       js ''# Article '' @ js ''2'' @ js '': '' @ js ''Cars'' @ [10, 10] @
       js ''Content not available.'' \<and>
     textInput (fetchSettled (js ''Wired'') (Response True (Body (JArr exampleArticles))) pageLoaded) =
       [0x3010] @ js ''Source: '' @ js ''Wired'' @ [0x3011] @ [10, 10] @
       join ([10, 10] @ js ''---'' @ [10, 10]) blocks"
  using C10_placeholder [OF exampleArticles_facts, of "js ''Wired''" pageLoaded]
  unfolding exampleArticles_second .

subsection \<open>Writing and reading JSON text\<close>

text \<open>Reading back what \<open>quote\<close> writes.\<close>

lemma hexValue_hexDigit: "d < 16 \<Longrightarrow> hexValue (hexDigit d) = Some d"
  by (simp add: hexValue_def hexDigit_def)

lemma hex4_value:
  assumes "n < 65536"
  shows "4096 * (n div 4096 mod 16) + 256 * (n div 256 mod 16) + 16 * (n div 16 mod 16) +
         n mod 16 = (n::nat)"
proof -
  define a where "a = n div 16"
  define b where "b = a div 16"
  define c where "c = b div 16"
  have n: "n = 16 * a + n mod 16"
    by (simp add: a_def)
  have a: "a = 16 * b + a mod 16"
    by (simp add: b_def)
  have b: "b = 16 * c + b mod 16"
    by (simp add: c_def)
  have b': "n div 256 = b"
    by (simp add: a_def b_def div_mult2_eq)
  have c': "n div 4096 = c"
    by (simp add: a_def b_def c_def div_mult2_eq)
  from assms have "c < 16"
    unfolding c' [symmetric] by simp
  then have c16: "c mod 16 = c"
    by simp
  have "4096 * c + 256 * (b mod 16) + 16 * (a mod 16) + n mod 16 = n"
    using n a b by linarith
  then show ?thesis
    by (simp only: b' c' c16 a_def [symmetric])
qed

lemma parseHex4_hex4:
  assumes "n < 65536"
  shows "parseHex4 (hexDigit (n div 4096 mod 16)) (hexDigit (n div 256 mod 16))
           (hexDigit (n div 16 mod 16)) (hexDigit (n mod 16)) = Some n"
proof -
  have "parseHex4 (hexDigit (n div 4096 mod 16)) (hexDigit (n div 256 mod 16))
           (hexDigit (n div 16 mod 16)) (hexDigit (n mod 16)) =
        Some (4096 * (n div 4096 mod 16) + 256 * (n div 256 mod 16) + 16 * (n div 16 mod 16) +
          n mod 16)"
    by (simp add: parseHex4_def hexValue_hexDigit)
  then show ?thesis
    by (simp only: hex4_value [OF assms])
qed

lemma parseString_unicode:
  "parseString ([92, 117] @ hex4 c @ t) =
     (case parseHex4 (hexDigit (c div 4096 mod 16)) (hexDigit (c div 256 mod 16))
             (hexDigit (c div 16 mod 16)) (hexDigit (c mod 16)) of
        None \<Rightarrow> None
      | Some u \<Rightarrow> consUnit u (parseString t))"
  by (simp add: hex4_def)

lemma parseString_escaped:
  "c < 65536 \<Longrightarrow> parseString ([92, 117] @ hex4 c @ t) = consUnit c (parseString t)"
  by (simp only: parseString_unicode parseHex4_hex4 option.case)

lemma parseString_quoteUnit: "parseString (quoteUnit c @ t) = consUnit c (parseString t)"
proof -
  consider "c = 8" | "c = 9" | "c = 10" | "c = 12" | "c = 13" | "c = 34" | "c = 92"
    | "c \<notin> {8, 9, 10, 12, 13, 34, 92}" "c < 32 \<or> isHighSurrogate c \<or> isLowSurrogate c"
    | "c \<notin> {8, 9, 10, 12, 13, 34, 92}" "\<not> (c < 32 \<or> isHighSurrogate c \<or> isLowSurrogate c)"
    by blast
  then show ?thesis
  proof cases
    case 8
    then have "c < 65536"
      by (auto simp: isHighSurrogate_def isLowSurrogate_def)
    then have "parseString ([92, 117] @ hex4 c @ t) = consUnit c (parseString t)"
      by (rule parseString_escaped)
    with 8 show ?thesis
      by (simp add: quoteUnit_def)
  next
    case 9
    then show ?thesis
      by (simp add: quoteUnit_def)
  qed (simp_all add: quoteUnit_def unescape_def)
qed

lemma parseString_quoteBody: "parseString (quoteBody s @ 34 # rest) = Some (s, rest)"
proof (induction s rule: quoteBody.induct)
  case 1
  show ?case by simp
next
  case (2 c)
  show ?case
    by (simp add: parseString_quoteUnit consUnit_def)
next
  case (3 c d cs)
  show ?case
  proof (cases "isHighSurrogate c \<and> isLowSurrogate d")
    case True
    then have units: "c \<noteq> 34" "c \<noteq> 92" "\<not> c < 32" "d \<noteq> 34" "d \<noteq> 92" "\<not> d < 32"
      by (auto simp: isHighSurrogate_def isLowSurrogate_def)
    from True have body: "quoteBody (c # d # cs) = c # d # quoteBody cs"
      by simp
    from 3(1) [OF True] units show ?thesis
      unfolding body by (simp add: consUnit_def)
  next
    case False
    then have body: "quoteBody (c # d # cs) = quoteUnit c @ quoteBody (d # cs)"
      by (simp only: quoteBody.simps if_False)
    from 3(2) [OF False] show ?thesis
      unfolding body by (simp only: append_assoc parseString_quoteUnit) (simp add: consUnit_def)
  qed
qed

lemma numberStep_char: "numberStep q c = Some q' \<Longrightarrow> isNumberChar c"
  by (cases q) (auto simp: numberStep_def isNumberChar_def isDigit_def split: if_splits)

lemma numberAccepts_chars: "numberAccepts q n \<Longrightarrow> list_all isNumberChar n"
  by (induction n arbitrary: q) (auto split: option.splits dest: numberStep_char)

lemma isJsonNumber_first:
  "isJsonNumber n \<Longrightarrow> \<exists>c t. n = c # t \<and> (c = 45 \<or> isDigit c)"
  by (cases n) (auto simp: isJsonNumber_def numberStep_def isDigit_def split: option.splits if_splits)

lemma takeWhile_token:
  assumes "list_all P n" and "rest = [] \<or> \<not> P (hd rest)"
  shows "takeWhile P (n @ rest) = n" and "dropWhile P (n @ rest) = rest"
proof -
  from assms(2) have rest: "takeWhile P rest = []" "dropWhile P rest = rest"
    by (cases rest; simp)+
  from assms(1) have all: "\<And>x. x \<in> set n \<Longrightarrow> P x"
    by (simp add: list_all_iff)
  show "takeWhile P (n @ rest) = n"
    using takeWhile_append2 [of n P rest, OF all] rest by simp
  show "dropWhile P (n @ rest) = rest"
    using dropWhile_append2 [of n P rest, OF all] rest by simp
qed

text \<open>Lists of properties in enumeration order.\<close>

lemma enumerationOrder_prefix: "enumerationOrder (xs @ ys) \<Longrightarrow> enumerationOrder xs"
proof (induction xs rule: enumerationOrder.induct)
  case (3 p q ps)
  then show ?case by simp
qed simp_all

lemma indexBelow_trans:
  "indexBelow m p \<Longrightarrow> m < n \<Longrightarrow> indexBelow n p"
  by (auto simp: indexBelow_def split: option.splits)

lemma enumerationOrder_before_index:
  "enumerationOrder (acc @ [p]) \<Longrightarrow> arrayIndex (fst p) = Some n \<Longrightarrow>
     \<forall>q\<in>set acc. indexBelow n q"
proof (induction acc rule: enumerationOrder.induct)
  case 1
  then show ?case by simp
next
  case (2 a)
  then show ?case by simp
next
  case (3 a b r)
  from 3(2) have order: "enumerationOrder ((b # r) @ [p])"
    and ab: "case arrayIndex (fst b) of None \<Rightarrow> True | Some m \<Rightarrow> indexBelow m a"
    by simp_all
  from 3(1) [OF order 3(3)] have rest: "\<forall>q\<in>set (b # r). indexBelow n q" .
  then have "indexBelow n b"
    by simp
  then obtain m where m: "arrayIndex (fst b) = Some m" "m < n"
    by (auto simp: indexBelow_def split: option.splits)
  with ab have "indexBelow m a"
    by simp
  with m(2) have "indexBelow n a"
    by (simp add: indexBelow_trans)
  with rest show ?case
    by simp
qed

lemma setProperty_new_last:
  assumes "k \<notin> fst ` set acc" and "enumerationOrder (acc @ [(k, v)])"
  shows "setProperty k v acc = acc @ [(k, v)]"
proof (cases "arrayIndex k")
  case None
  with assms(1) show ?thesis
    by (simp add: setProperty_def)
next
  case (Some n)
  have "\<And>q. q \<in> set acc \<Longrightarrow> indexBelow n q"
    using enumerationOrder_before_index [OF assms(2), of n] Some by simp
  then have "takeWhile (indexBelow n) acc = acc" "dropWhile (indexBelow n) acc = []"
    by simp_all
  with assms(1) Some show ?thesis
    by (simp add: setProperty_def)
qed

text \<open>Reading back the text of a value that is not an array or an object.\<close>

lemma join_Cons: "join sep (x # xs) = (if xs = [] then x else x @ sep @ join sep xs)"
  by (cases xs) simp_all

lemma afterValue_simps [simp]:
  "afterValue []" "afterValue (44 # r)" "afterValue (93 # r)" "afterValue (125 # r)"
  by (simp_all add: afterValue_def)

lemma afterValue_not_number: "afterValue rest \<Longrightarrow> rest = [] \<or> \<not> isNumberChar (hd rest)"
  by (auto simp: afterValue_def isNumberChar_def isDigit_def)

lemma skipWhiteSpace_token: "\<not> isJsonWhiteSpace c \<Longrightarrow> skipWhiteSpace (c # r) = c # r"
  by (simp add: skipWhiteSpace_def)

lemma isJsonNumber_not_special:
  "isJsonNumber n \<Longrightarrow> n \<noteq> js ''NaN'' \<and> n \<noteq> js ''Infinity'' \<and> n \<noteq> js ''-Infinity''"
  by (auto simp: isJsonNumber_def numberStep_def isDigit_def js_def)

lemma parseValue_string:
  "parseValue numberText (Suc f) (quote s @ rest) = Some (JStr s, rest)"
  by (simp add: quote_def skipWhiteSpace_def isJsonWhiteSpace_def parseString_quoteBody)

lemma parseValue_literal:
  "parseValue numberText (Suc f) (js ''null'' @ rest) = Some (JNull, rest)"
  "parseValue numberText (Suc f) (js ''true'' @ rest) = Some (JBool True, rest)"
  "parseValue numberText (Suc f) (js ''false'' @ rest) = Some (JBool False, rest)"
  by (simp_all add: js_def skipWhiteSpace_def isJsonWhiteSpace_def)

lemma parseValue_number:
  assumes "isJsonNumber n" and "afterValue rest"
  shows "parseValue numberText (Suc f) (n @ rest) = Some (JNum (numberText n), rest)"
proof -
  from assms(1) obtain c t where n: "n = c # t" and c: "c = 45 \<or> isDigit c"
    using isJsonNumber_first by blast
  from assms(1) have chars: "list_all isNumberChar n"
    by (simp add: isJsonNumber_def numberAccepts_chars)
  note token = takeWhile_token [OF chars afterValue_not_number [OF assms(2)]]
  from c have first: "\<not> isJsonWhiteSpace c" "c \<noteq> 34" "c \<noteq> 91" "c \<noteq> 123"
    "c \<noteq> 116" "c \<noteq> 102" "c \<noteq> 110"
    by (auto simp: isJsonWhiteSpace_def isDigit_def)
  have "parseValue numberText (Suc f) (c # t @ rest) =
      (if isJsonNumber (takeWhile isNumberChar (c # t @ rest))
       then Some (JNum (numberText (takeWhile isNumberChar (c # t @ rest))),
                  dropWhile isNumberChar (c # t @ rest))
       else None)"
    using first by (simp add: skipWhiteSpace_token js_def)
  with token assms(1) show ?thesis
    by (simp add: n)
qed

text \<open>Reading back the elements of an array and the members of an object.\<close>

lemma valueStart_iff:
  "valueStart t \<longleftrightarrow>
     (\<exists>c r. t = c # r \<and> \<not> isJsonWhiteSpace c \<and> c \<noteq> 93 \<and> c \<noteq> 125)"
  by (cases t) (simp_all add: valueStart_def)

lemma valueStart_append: "valueStart t \<Longrightarrow> valueStart (t @ r)"
  by (auto simp: valueStart_iff)

lemma valueStart_stringify: "storable numberText v \<Longrightarrow> valueStart (JSON_stringify v)"
proof (cases v)
  case (JNum n)
  assume "storable numberText v"
  with JNum have n: "isJsonNumber n"
    by simp
  then obtain c t where "n = c # t" "c = 45 \<or> isDigit c"
    using isJsonNumber_first by blast
  with JNum isJsonNumber_not_special [OF n] show ?thesis
    by (auto simp: valueStart_iff isJsonWhiteSpace_def isDigit_def)
qed (simp_all add: valueStart_iff quote_def js_def isJsonWhiteSpace_def)

lemma valueStart_join:
  "xs \<noteq> [] \<Longrightarrow> valueStart (hd xs) \<Longrightarrow> valueStart (join sep xs @ r)"
  by (cases xs) (auto simp: join_Cons intro: valueStart_append)

lemma parseElements_join:
  assumes "xs \<noteq> []"
    and "\<And>x rest f. x \<in> set xs \<Longrightarrow> afterValue rest \<Longrightarrow> fuelFor x \<le> f \<Longrightarrow>
           parseValue numberText f (JSON_stringify x @ rest) = Some (x, rest)"
    and "sum_list (map (\<lambda>x. Suc (fuelFor x)) xs) \<le> f"
  shows "parseElements numberText f (join [44] (map JSON_stringify xs) @ 93 # rest) acc =
           Some (JArr (acc @ xs), rest)"
  using assms
proof (induction xs arbitrary: acc f)
  case Nil
  then show ?case by simp
next
  case (Cons x xs)
  from Cons.prems(3) obtain f' where f: "f = Suc f'" and fx: "fuelFor x \<le> f'"
    and fxs: "sum_list (map (\<lambda>x. Suc (fuelFor x)) xs) \<le> f'"
    by (cases f) auto
  show ?case
  proof (cases "xs = []")
    case True
    have "parseValue numberText f' (JSON_stringify x @ 93 # rest) = Some (x, 93 # rest)"
      using Cons.prems(2) [of x "93 # rest" f'] fx by simp
    with True f show ?thesis
      by (simp add: skipWhiteSpace_def isJsonWhiteSpace_def)
  next
    case False
    let ?tail = "join [44] (map JSON_stringify xs) @ 93 # rest"
    have "parseValue numberText f' (JSON_stringify x @ 44 # ?tail) = Some (x, 44 # ?tail)"
      using Cons.prems(2) [of x "44 # ?tail" f'] fx by simp
    moreover have "parseElements numberText f' ?tail (acc @ [x]) = Some (JArr ((acc @ [x]) @ xs), rest)"
      using Cons.IH [OF False _ fxs] Cons.prems(2) by simp
    ultimately show ?thesis
      using False f by (simp add: join_Cons skipWhiteSpace_def isJsonWhiteSpace_def)
  qed
qed

lemma memberText_pair: "memberText (k, v) = 34 # quoteBody k @ 34 # 58 # JSON_stringify v"
  by (simp add: memberText_def quote_def)

lemma parseMembers_join:
  assumes "ps \<noteq> []"
    and "\<And>p rest f. p \<in> set ps \<Longrightarrow> afterValue rest \<Longrightarrow> fuelFor (snd p) \<le> f \<Longrightarrow>
           parseValue numberText f (JSON_stringify (snd p) @ rest) = Some (snd p, rest)"
    and "sum_list (map (\<lambda>p. Suc (fuelFor (snd p))) ps) \<le> f"
    and "distinct (map fst (acc @ ps))" and "enumerationOrder (acc @ ps)"
  shows "parseMembers numberText f (join [44] (map memberText ps) @ 125 # rest) acc =
           Some (JObj (acc @ ps), rest)"
  using assms
proof (induction ps arbitrary: acc f)
  case Nil
  then show ?case by simp
next
  case (Cons p ps)
  obtain k v where p: "p = (k, v)"
    by (cases p)
  from Cons.prems(3) obtain f' where f: "f = Suc f'" and fv: "fuelFor v \<le> f'"
    and fps: "sum_list (map (\<lambda>p. Suc (fuelFor (snd p))) ps) \<le> f'"
    by (cases f) (auto simp: p)
  from Cons.prems(4) have new: "k \<notin> fst ` set acc"
    by (auto simp: p)
  from Cons.prems(5) have "enumerationOrder ((acc @ [(k, v)]) @ ps)"
    by (simp add: p)
  then have "enumerationOrder (acc @ [(k, v)])"
    by (rule enumerationOrder_prefix)
  with new have set: "setProperty k v acc = acc @ [(k, v)]"
    by (rule setProperty_new_last)
  have key: "\<And>t. parseString (quoteBody k @ 34 # t) = Some (k, t)"
    by (rule parseString_quoteBody)
  show ?case
  proof (cases "ps = []")
    case True
    have "parseValue numberText f' (JSON_stringify v @ 125 # rest) = Some (v, 125 # rest)"
      using Cons.prems(2) [of p "125 # rest" f'] fv by (simp add: p)
    with True f set key show ?thesis
      by (simp add: p memberText_pair skipWhiteSpace_def isJsonWhiteSpace_def)
  next
    case False
    let ?tail = "join [44] (map memberText ps) @ 125 # rest"
    have "parseValue numberText f' (JSON_stringify v @ 44 # ?tail) = Some (v, 44 # ?tail)"
      using Cons.prems(2) [of p "44 # ?tail" f'] fv by (simp add: p)
    moreover have "parseMembers numberText f' ?tail (acc @ [(k, v)]) =
        Some (JObj ((acc @ [(k, v)]) @ ps), rest)"
      using Cons.IH [OF False _ fps, of "acc @ [(k, v)]"] Cons.prems(2,4,5) by (simp add: p)
    ultimately show ?thesis
      using False f set key
      by (simp add: p memberText_pair join_Cons skipWhiteSpace_def isJsonWhiteSpace_def)
  qed
qed

text \<open>
  \<^verbatim>\<open>JSON.parse\<close> reads the text that \<^verbatim>\<open>JSON.stringify\<close> writes for a storable value
  as that value.
\<close>

lemma stringify_JArr:
  "JSON_stringify (JArr xs) @ rest = 91 # join [44] (map JSON_stringify xs) @ 93 # rest"
  by (simp add: js_def)

lemma stringify_JObj:
  "JSON_stringify (JObj ps) @ rest = 123 # join [44] (map memberText ps) @ 125 # rest"
proof -
  have "(\<lambda>(k, v). quote k @ js '':'' @ JSON_stringify v) = memberText"
    by (auto simp: memberText_def js_def fun_eq_iff)
  then show ?thesis
    by (simp add: js_def)
qed

lemma parseValue_array:
  assumes "parseElements numberText f (t @ 93 # rest) [] = Some (JArr xs, rest)" and "valueStart (t @ 93 # rest)"
  shows "parseValue numberText (Suc f) (91 # t @ 93 # rest) = Some (JArr xs, rest)"
proof -
  from assms(2) obtain c r where "t @ 93 # rest = c # r" "\<not> isJsonWhiteSpace c" "c \<noteq> 93"
    by (auto simp: valueStart_iff)
  with assms(1) show ?thesis
    by (simp add: skipWhiteSpace_def isJsonWhiteSpace_def)
qed

lemma parseValue_object:
  assumes "parseMembers numberText f (t @ 125 # rest) [] = Some (JObj ps, rest)" and "valueStart (t @ 125 # rest)"
  shows "parseValue numberText (Suc f) (123 # t @ 125 # rest) = Some (JObj ps, rest)"
proof -
  from assms(2) obtain c r where "t @ 125 # rest = c # r" "\<not> isJsonWhiteSpace c" "c \<noteq> 125"
    by (auto simp: valueStart_iff)
  with assms(1) show ?thesis
    by (simp add: skipWhiteSpace_def isJsonWhiteSpace_def)
qed

lemma parseValue_empty:
  "parseValue numberText (Suc f) (91 # 93 # rest) = Some (JArr [], rest)"
  "parseValue numberText (Suc f) (123 # 125 # rest) = Some (JObj [], rest)"
  by (simp_all add: skipWhiteSpace_def isJsonWhiteSpace_def)

lemma parseValue_stringify:
  "storable numberText v \<Longrightarrow> afterValue rest \<Longrightarrow> fuelFor v \<le> f \<Longrightarrow>
     parseValue numberText f (JSON_stringify v @ rest) = Some (v, rest)"
proof (induction v arbitrary: rest f)
  case JNull
  then obtain f' where "f = Suc f'" by (cases f) auto
  then show ?case by (simp only: JSON_stringify.simps parseValue_literal)
next
  case (JBool b)
  then obtain f' where "f = Suc f'" by (cases f) auto
  then show ?case by (cases b) (simp_all only: JSON_stringify.simps parseValue_literal if_True if_False)
next
  case (JNum n)
  then obtain f' where f: "f = Suc f'" by (cases f) auto
  from JNum.prems(1) have n: "isJsonNumber n" "numberText n = n"
    by simp_all
  from isJsonNumber_not_special [OF n(1)] have "JSON_stringify (JNum n) = n"
    by simp
  with parseValue_number [OF n(1) JNum.prems(2), of numberText f'] n(2) f show ?case
    by simp
next
  case (JStr s)
  then obtain f' where "f = Suc f'" by (cases f) auto
  then show ?case by (simp only: JSON_stringify.simps parseValue_string)
next
  case (JArr xs)
  from JArr.prems(3) obtain f' where f: "f = Suc f'"
    and f': "sum_list (map (\<lambda>x. Suc (fuelFor x)) xs) \<le> f'"
    by (cases f) auto
  show ?case
  proof (cases "xs = []")
    case True
    with f show ?thesis
      by (simp add: js_def parseValue_empty del: parseValue.simps)
  next
    case False
    have each: "\<And>x rest f. x \<in> set xs \<Longrightarrow> afterValue rest \<Longrightarrow> fuelFor x \<le> f \<Longrightarrow>
        parseValue numberText f (JSON_stringify x @ rest) = Some (x, rest)"
      using JArr.IH JArr.prems(1) by simp
    from parseElements_join [OF False each f', of rest "[]"]
    have elements: "parseElements numberText f' (join [44] (map JSON_stringify xs) @ 93 # rest) [] =
        Some (JArr xs, rest)"
      by simp
    from False JArr.prems(1) have "valueStart (hd (map JSON_stringify xs))"
      by (cases xs) (auto intro: valueStart_stringify)
    with False have "valueStart (join [44] (map JSON_stringify xs) @ 93 # rest)"
      by (simp add: valueStart_join)
    from parseValue_array [OF elements this] f show ?thesis
      by (simp only: stringify_JArr)
  qed
next
  case (JObj ps)
  from JObj.prems(3) obtain f' where f: "f = Suc f'"
    and f': "sum_list (map (\<lambda>p. Suc (fuelFor (snd p))) ps) \<le> f'"
    by (cases f) auto
  show ?case
  proof (cases "ps = []")
    case True
    with f show ?thesis
      by (simp add: js_def parseValue_empty del: parseValue.simps)
  next
    case False
    have each: "\<And>p rest f. p \<in> set ps \<Longrightarrow> afterValue rest \<Longrightarrow> fuelFor (snd p) \<le> f \<Longrightarrow>
        parseValue numberText f (JSON_stringify (snd p) @ rest) = Some (snd p, rest)"
    proof -
      fix p rest f
      assume p: "p \<in> set ps" and r: "afterValue rest" and fp: "fuelFor (snd p) \<le> f"
      obtain k v where kv: "p = (k, v)" by (cases p)
      from p JObj.prems(1) have "storable numberText (snd p)"
        by simp
      with JObj.IH [of p v rest f] p r fp kv
      show "parseValue numberText f (JSON_stringify (snd p) @ rest) = Some (snd p, rest)"
        by simp
    qed
    from JObj.prems(1) have "distinct (map fst ([] @ ps))" "enumerationOrder ([] @ ps)"
      by simp_all
    from parseMembers_join [OF False each f' this, of rest]
    have members: "parseMembers numberText f' (join [44] (map memberText ps) @ 125 # rest) [] =
        Some (JObj ps, rest)"
      by simp
    from False have "valueStart (hd (map memberText ps))"
      by (cases ps) (auto simp: memberText_def quote_def valueStart_iff isJsonWhiteSpace_def)
    with False have "valueStart (join [44] (map memberText ps) @ 125 # rest)"
      by (simp add: valueStart_join)
    from parseValue_object [OF members this] f show ?thesis
      by (simp only: stringify_JObj)
  qed
qed

lemma length_join:
  "ts \<noteq> [] \<Longrightarrow> Suc (length (join [c] ts)) = sum_list (map (\<lambda>t. Suc (length t)) ts)"
  by (induction ts) (auto simp: join_Cons)

lemma fuelFor_le_length: "storable numberText v \<Longrightarrow> fuelFor v \<le> length (JSON_stringify v)"
proof (induction v)
  case (JNum n)
  then have "isJsonNumber n" by simp
  from isJsonNumber_first [OF this] isJsonNumber_not_special [OF this] show ?case
    by auto
next
  case (JArr xs)
  show ?case
  proof (cases "xs = []")
    case True
    then show ?thesis by (simp add: js_def)
  next
    case False
    have "sum_list (map (\<lambda>x. Suc (fuelFor x)) xs) \<le>
        sum_list (map (\<lambda>x. Suc (length (JSON_stringify x))) xs)"
      using JArr by (intro sum_list_mono) simp
    also have "\<dots> = sum_list (map (\<lambda>t. Suc (length t)) (map JSON_stringify xs))"
      by (simp add: comp_def)
    also have "\<dots> = Suc (length (join [44] (map JSON_stringify xs)))"
      using False by (simp add: length_join)
    finally show ?thesis
      by (simp add: js_def)
  qed
next
  case (JObj ps)
  show ?case
  proof (cases "ps = []")
    case True
    then show ?thesis by (simp add: js_def)
  next
    case False
    have "sum_list (map (\<lambda>p. Suc (fuelFor (snd p))) ps) \<le>
        sum_list (map (\<lambda>p. Suc (length (memberText p))) ps)"
    proof (intro sum_list_mono)
      fix p assume p: "p \<in> set ps"
      obtain k v where kv: "p = (k, v)" by (cases p)
      with p JObj.prems have "storable numberText v"
        by auto
      with JObj.IH [of p v] p kv have "fuelFor v \<le> length (JSON_stringify v)"
        by simp
      with kv show "Suc (fuelFor (snd p)) \<le> Suc (length (memberText p))"
        by (simp add: memberText_def)
    qed
    also have "\<dots> = sum_list (map (\<lambda>t. Suc (length t)) (map memberText ps))"
      by (simp add: comp_def)
    also have "\<dots> = Suc (length (join [44] (map memberText ps)))"
      using False by (simp add: length_join)
    finally show ?thesis
      using stringify_JObj [of ps "[]"] by simp
  qed
qed (simp_all add: js_def quote_def)

lemma JSON_round_trip:
  assumes "storable numberText v"
  shows "JSON_parse numberText (JSON_stringify v) = Some v"
proof -
  have "parseValue numberText (length (JSON_stringify v)) (JSON_stringify v @ []) = Some (v, [])"
    using assms by (intro parseValue_stringify fuelFor_le_length) simp_all
  then show ?thesis
    by (simp add: JSON_parse_def skipWhiteSpace_def)
qed

text \<open>
  The length of the text is enough fuel: a value that is read with some fuel is read with
  every fuel that is at least the number of characters read, so that more fuel than the
  length of the text never changes the result of the parser.
\<close>

lemma parseString_shorter: "parseString s = Some (t, rest) \<Longrightarrow> length rest < length s"
proof (induction s arbitrary: t rest rule: parseString.induct)
  case 1
  then show ?case by simp
next
  case (2 c r)
  show ?case
  proof (cases "c = 34")
    case True
    with "2.prems" show ?thesis by auto
  next
    case False
    show ?thesis
      using 2 False
      by (fastforce simp: consUnit_def split: if_splits list.splits option.splits)
  qed
qed

lemma skipWhiteSpace_length: "skipWhiteSpace s = c # r \<Longrightarrow> length r < length s"
  unfolding skipWhiteSpace_def
  by (metis length_dropWhile_le length_Cons less_Suc_eq_le Suc_le_eq)

lemma isJsonNumber_not_Nil: "isJsonNumber n \<Longrightarrow> n \<noteq> []"
  by (auto simp: isJsonNumber_def)

lemma number_rest_shorter:
  "isJsonNumber (takeWhile isNumberChar s) \<Longrightarrow> length (dropWhile isNumberChar s) < length s"
proof -
  assume "isJsonNumber (takeWhile isNumberChar s)"
  then have "takeWhile isNumberChar s \<noteq> []"
    by (rule isJsonNumber_not_Nil)
  then have "0 < length (takeWhile isNumberChar s)"
    by simp
  moreover have "length s = length (takeWhile isNumberChar s) + length (dropWhile isNumberChar s)"
    by (metis length_append takeWhile_dropWhile_id)
  ultimately show ?thesis
    by simp
qed

lemma parseValue_fuel_step:
  assumes E: "\<And>s acc v r. parseElements numberText f s acc = Some (v, r) \<Longrightarrow>
      length r < length s \<and>
      (\<forall>g\<ge>length s - length r. parseElements numberText g s acc = Some (v, r))"
    and M: "\<And>s acc v r. parseMembers numberText f s acc = Some (v, r) \<Longrightarrow>
      length r < length s \<and>
      (\<forall>g\<ge>length s - length r. parseMembers numberText g s acc = Some (v, r))"
    and parsed: "parseValue numberText (Suc f) s = Some (v, r)"
  shows "length r < length s \<and>
    (\<forall>g\<ge>length s - length r. parseValue numberText g s = Some (v, r))"
proof -
  from parsed obtain c r0 where skip: "skipWhiteSpace s = c # r0"
    by (cases "skipWhiteSpace s") simp_all
  then have r0: "length r0 < length s"
    by (rule skipWhiteSpace_length)
  have shorter: "length r < length s \<and>
      (\<forall>g'. length s - length r \<le> Suc g' \<longrightarrow> parseValue numberText (Suc g') s = Some (v, r))"
  proof (cases "c = 34")
    case True
    with parsed skip obtain t where t: "parseString r0 = Some (t, r)" "v = JStr t"
      by (cases "parseString r0") auto
    from parseString_shorter [OF t(1)] r0 True skip t show ?thesis
      by simp
  next
    case not_string: False
    show ?thesis
    proof (cases "c = 91")
      case True
      from parsed skip True obtain d r' where d: "skipWhiteSpace r0 = d # r'"
        by (cases "skipWhiteSpace r0") simp_all
      then have r': "length r' < length r0"
        by (rule skipWhiteSpace_length)
      show ?thesis
      proof (cases "d = 93")
        case True
        with parsed skip \<open>c = 91\<close> d r' r0 show ?thesis
          by simp
      next
        case False
        with parsed skip \<open>c = 91\<close> d have "parseElements numberText f r0 [] = Some (v, r)"
          by simp
        from E [OF this] r0 skip \<open>c = 91\<close> d False show ?thesis
          by simp
      qed
    next
      case not_array: False
      show ?thesis
      proof (cases "c = 123")
        case True
        from parsed skip True obtain d r' where d: "skipWhiteSpace r0 = d # r'"
          by (cases "skipWhiteSpace r0") simp_all
        then have r': "length r' < length r0"
          by (rule skipWhiteSpace_length)
        show ?thesis
        proof (cases "d = 125")
          case True
          with parsed skip \<open>c = 123\<close> d r' r0 show ?thesis
            by simp
        next
          case False
          with parsed skip \<open>c = 123\<close> d have "parseMembers numberText f r0 [] = Some (v, r)"
            by simp
          from M [OF this] r0 skip \<open>c = 123\<close> d False show ?thesis
            by simp
        qed
      next
        case False
        have same: "parseValue numberText (Suc g') s = parseValue numberText (Suc f) s" for g'
          using skip not_string not_array False by simp
        have "length r < length s"
          using parsed skip not_string not_array False r0 number_rest_shorter [of "c # r0"]
          by (auto split: if_splits)
        with same parsed show ?thesis
          by simp
      qed
    qed
  qed
  show ?thesis
  proof (intro conjI allI impI)
    show "length r < length s"
      using shorter by simp
    fix g
    assume g: "length s - length r \<le> g"
    with shorter obtain g' where "g = Suc g'"
      by (cases g) auto
    with g shorter show "parseValue numberText g s = Some (v, r)"
      by simp
  qed
qed

lemma parseElements_fuel_step:
  assumes V: "\<And>s v r. parseValue numberText f s = Some (v, r) \<Longrightarrow>
      length r < length s \<and>
      (\<forall>g\<ge>length s - length r. parseValue numberText g s = Some (v, r))"
    and E: "\<And>s acc v r. parseElements numberText f s acc = Some (v, r) \<Longrightarrow>
      length r < length s \<and>
      (\<forall>g\<ge>length s - length r. parseElements numberText g s acc = Some (v, r))"
    and parsed: "parseElements numberText (Suc f) s acc = Some (v, r)"
  shows "length r < length s \<and>
    (\<forall>g\<ge>length s - length r. parseElements numberText g s acc = Some (v, r))"
proof -
  from parsed obtain x r1 where element: "parseValue numberText f s = Some (x, r1)"
    by (cases "parseValue numberText f s") auto
  from V [OF element] have r1: "length r1 < length s"
    and more: "\<And>g. length s - length r1 \<le> g \<Longrightarrow> parseValue numberText g s = Some (x, r1)"
    by simp_all
  from parsed element obtain c r' where skip: "skipWhiteSpace r1 = c # r'"
    by (cases "skipWhiteSpace r1") simp_all
  then have r': "length r' < length r1"
    by (rule skipWhiteSpace_length)
  have step: "length r < length s \<and>
      (\<forall>g'. length s - length r \<le> Suc g' \<longrightarrow>
         parseElements numberText (Suc g') s acc = Some (v, r))"
  proof (cases "c = 44")
    case True
    with parsed element skip
    have rest: "parseElements numberText f r' (acc @ [x]) = Some (v, r)"
      by simp
    from E [OF rest] have r: "length r < length r'"
      and more': "\<And>g. length r' - length r \<le> g \<Longrightarrow>
        parseElements numberText g r' (acc @ [x]) = Some (v, r)"
      by simp_all
    have "parseElements numberText (Suc g') s acc = Some (v, r)"
      if "length s - length r \<le> Suc g'" for g'
    proof -
      from that r r' r1 have "length s - length r1 \<le> g'" "length r' - length r \<le> g'"
        by simp_all
      then have "parseValue numberText g' s = Some (x, r1)"
        "parseElements numberText g' r' (acc @ [x]) = Some (v, r)"
        by (simp_all add: more more')
      with skip True show ?thesis
        by simp
    qed
    with r r' r1 show ?thesis
      by simp
  next
    case False
    with parsed element skip have c: "c = 93" and v: "v = JArr (acc @ [x])" "r = r'"
      by (simp_all split: if_splits)
    have "parseElements numberText (Suc g') s acc = Some (v, r)"
      if "length s - length r \<le> Suc g'" for g'
    proof -
      from that v r' r1 have "length s - length r1 \<le> g'"
        by simp
      then have "parseValue numberText g' s = Some (x, r1)"
        by (simp add: more)
      with skip c v show ?thesis
        by simp
    qed
    with v r' r1 show ?thesis
      by simp
  qed
  show ?thesis
  proof (intro conjI allI impI)
    show "length r < length s"
      using step by simp
    fix g
    assume g: "length s - length r \<le> g"
    with step obtain g' where "g = Suc g'"
      by (cases g) auto
    with g step show "parseElements numberText g s acc = Some (v, r)"
      by simp
  qed
qed

lemma parseMembers_fuel_step:
  assumes V: "\<And>s v r. parseValue numberText f s = Some (v, r) \<Longrightarrow>
      length r < length s \<and>
      (\<forall>g\<ge>length s - length r. parseValue numberText g s = Some (v, r))"
    and M: "\<And>s acc v r. parseMembers numberText f s acc = Some (v, r) \<Longrightarrow>
      length r < length s \<and>
      (\<forall>g\<ge>length s - length r. parseMembers numberText g s acc = Some (v, r))"
    and parsed: "parseMembers numberText (Suc f) s acc = Some (v, r)"
  shows "length r < length s \<and>
    (\<forall>g\<ge>length s - length r. parseMembers numberText g s acc = Some (v, r))"
proof -
  from parsed obtain c r0 where skip: "skipWhiteSpace s = c # r0"
    by (cases "skipWhiteSpace s") simp_all
  then have r0: "length r0 < length s"
    by (rule skipWhiteSpace_length)
  from parsed skip have c: "c = 34"
    by (simp split: if_splits)
  from parsed skip c obtain k r1 where key: "parseString r0 = Some (k, r1)"
    by (cases "parseString r0") auto
  then have r1: "length r1 < length r0"
    by (rule parseString_shorter)
  from parsed skip c key obtain c1 r2 where skip1: "skipWhiteSpace r1 = c1 # r2"
    by (cases "skipWhiteSpace r1") simp_all
  then have r2: "length r2 < length r1"
    by (rule skipWhiteSpace_length)
  from parsed skip c key skip1 have c1: "c1 = 58"
    by (simp split: if_splits)
  from parsed skip c key skip1 c1 obtain x r3
    where member: "parseValue numberText f r2 = Some (x, r3)"
    by (cases "parseValue numberText f r2") auto
  from V [OF member] have r3: "length r3 < length r2"
    and more: "\<And>g. length r2 - length r3 \<le> g \<Longrightarrow> parseValue numberText g r2 = Some (x, r3)"
    by simp_all
  from parsed skip c key skip1 c1 member obtain c3 r4 where skip3: "skipWhiteSpace r3 = c3 # r4"
    by (cases "skipWhiteSpace r3") simp_all
  then have r4: "length r4 < length r3"
    by (rule skipWhiteSpace_length)
  have step: "length r < length s \<and>
      (\<forall>g'. length s - length r \<le> Suc g' \<longrightarrow>
         parseMembers numberText (Suc g') s acc = Some (v, r))"
  proof (cases "c3 = 44")
    case True
    with parsed skip c key skip1 c1 member skip3
    have rest: "parseMembers numberText f r4 (setProperty k x acc) = Some (v, r)"
      by simp
    from M [OF rest] have r: "length r < length r4"
      and more': "\<And>g. length r4 - length r \<le> g \<Longrightarrow>
        parseMembers numberText g r4 (setProperty k x acc) = Some (v, r)"
      by simp_all
    have "parseMembers numberText (Suc g') s acc = Some (v, r)"
      if "length s - length r \<le> Suc g'" for g'
    proof -
      from that r r4 r3 r2 r1 r0
      have "length r2 - length r3 \<le> g'" "length r4 - length r \<le> g'"
        by simp_all
      then have "parseValue numberText g' r2 = Some (x, r3)"
        "parseMembers numberText g' r4 (setProperty k x acc) = Some (v, r)"
        by (simp_all add: more more')
      with skip c key skip1 c1 skip3 True show ?thesis
        by simp
    qed
    with r r4 r3 r2 r1 r0 show ?thesis
      by simp
  next
    case False
    with parsed skip c key skip1 c1 member skip3
    have c3: "c3 = 125" and v: "v = JObj (setProperty k x acc)" "r = r4"
      by (simp_all split: if_splits)
    have "parseMembers numberText (Suc g') s acc = Some (v, r)"
      if "length s - length r \<le> Suc g'" for g'
    proof -
      from that v r4 r3 r2 r1 r0 have "length r2 - length r3 \<le> g'"
        by simp
      then have "parseValue numberText g' r2 = Some (x, r3)"
        by (simp add: more)
      with skip c key skip1 c1 skip3 c3 v show ?thesis
        by simp
    qed
    with v r4 r3 r2 r1 r0 show ?thesis
      by simp
  qed
  show ?thesis
  proof (intro conjI allI impI)
    show "length r < length s"
      using step by simp
    fix g
    assume g: "length s - length r \<le> g"
    with step obtain g' where "g = Suc g'"
      by (cases g) auto
    with g step show "parseMembers numberText g s acc = Some (v, r)"
      by simp
  qed
qed

lemma parse_fuel:
  "(\<forall>s v r. parseValue numberText f s = Some (v, r) \<longrightarrow>
      length r < length s \<and>
      (\<forall>g\<ge>length s - length r. parseValue numberText g s = Some (v, r))) \<and>
   (\<forall>s acc v r. parseElements numberText f s acc = Some (v, r) \<longrightarrow>
      length r < length s \<and>
      (\<forall>g\<ge>length s - length r. parseElements numberText g s acc = Some (v, r))) \<and>
   (\<forall>s acc v r. parseMembers numberText f s acc = Some (v, r) \<longrightarrow>
      length r < length s \<and>
      (\<forall>g\<ge>length s - length r. parseMembers numberText g s acc = Some (v, r)))"
proof (induction f)
  case 0
  show ?case by simp
next
  case (Suc f)
  have V: "length r < length s \<and>
      (\<forall>g\<ge>length s - length r. parseValue numberText g s = Some (v, r))"
    if h: "parseValue numberText f s = Some (v, r)" for s v r
    using Suc.IH [THEN conjunct1, THEN spec, THEN spec, THEN spec, THEN mp, OF h] .
  have E: "length r < length s \<and>
      (\<forall>g\<ge>length s - length r. parseElements numberText g s acc = Some (v, r))"
    if h: "parseElements numberText f s acc = Some (v, r)" for s acc v r
    using Suc.IH [THEN conjunct2, THEN conjunct1, THEN spec, THEN spec, THEN spec, THEN spec,
        THEN mp, OF h] .
  have M: "length r < length s \<and>
      (\<forall>g\<ge>length s - length r. parseMembers numberText g s acc = Some (v, r))"
    if h: "parseMembers numberText f s acc = Some (v, r)" for s acc v r
    using Suc.IH [THEN conjunct2, THEN conjunct2, THEN spec, THEN spec, THEN spec, THEN spec,
        THEN mp, OF h] .
  have 1: "\<forall>s v r. parseValue numberText (Suc f) s = Some (v, r) \<longrightarrow>
      length r < length s \<and>
      (\<forall>g\<ge>length s - length r. parseValue numberText g s = Some (v, r))"
  proof (rule allI, rule allI, rule allI, rule impI)
    fix s v r
    assume "parseValue numberText (Suc f) s = Some (v, r)"
    then show "length r < length s \<and>
      (\<forall>g\<ge>length s - length r. parseValue numberText g s = Some (v, r))"
      using E M by (rule parseValue_fuel_step [rotated 2])
  qed
  have 2: "\<forall>s acc v r. parseElements numberText (Suc f) s acc = Some (v, r) \<longrightarrow>
      length r < length s \<and>
      (\<forall>g\<ge>length s - length r. parseElements numberText g s acc = Some (v, r))"
  proof (rule allI, rule allI, rule allI, rule allI, rule impI)
    fix s acc v r
    assume "parseElements numberText (Suc f) s acc = Some (v, r)"
    then show "length r < length s \<and>
      (\<forall>g\<ge>length s - length r. parseElements numberText g s acc = Some (v, r))"
      using V E by (rule parseElements_fuel_step [rotated 2])
  qed
  have 3: "\<forall>s acc v r. parseMembers numberText (Suc f) s acc = Some (v, r) \<longrightarrow>
      length r < length s \<and>
      (\<forall>g\<ge>length s - length r. parseMembers numberText g s acc = Some (v, r))"
  proof (rule allI, rule allI, rule allI, rule allI, rule impI)
    fix s acc v r
    assume "parseMembers numberText (Suc f) s acc = Some (v, r)"
    then show "length r < length s \<and>
      (\<forall>g\<ge>length s - length r. parseMembers numberText g s acc = Some (v, r))"
      using V M by (rule parseMembers_fuel_step [rotated 2])
  qed
  from 1 2 3 show ?case
    by (intro conjI)
qed

lemma parseValue_more_fuel:
  assumes "parseValue numberText f t = Some (v, r)" and "length t \<le> g"
  shows "parseValue numberText g t = Some (v, r)"
proof -
  from parse_fuel [of numberText f, THEN conjunct1, THEN spec, THEN spec, THEN spec, THEN mp,
      OF assms(1)]
  have "\<forall>g\<ge>length t - length r. parseValue numberText g t = Some (v, r)"
    by (rule conjunct2)
  moreover from assms(2) have "length t - length r \<le> g"
    by simp
  ultimately show ?thesis
    by blast
qed

lemma parseValue_fuel_enough:
  assumes "length t \<le> f"
  shows "parseValue numberText f t = parseValue numberText (length t) t"
proof (cases "parseValue numberText f t")
  case None
  show ?thesis
  proof (cases "parseValue numberText (length t) t")
    case inner: None
    with None show ?thesis by simp
  next
    case (Some p)
    obtain v r where "p = (v, r)"
      by (cases p)
    with Some have "parseValue numberText (length t) t = Some (v, r)"
      by simp
    from parseValue_more_fuel [OF this assms] None show ?thesis
      by simp
  qed
next
  case (Some p)
  obtain v r where p: "p = (v, r)"
    by (cases p)
  with Some have "parseValue numberText f t = Some (v, r)"
    by simp
  from parseValue_more_fuel [OF this order_refl] Some p show ?thesis
    by simp
qed

lemma JSON_parse_fuel:
  assumes "length t \<le> f"
  shows "(case parseValue numberText f t of
            None \<Rightarrow> None
          | Some (v, rest) \<Rightarrow> if skipWhiteSpace rest = [] then Some v else None) =
         JSON_parse numberText t"
  unfolding JSON_parse_def parseValue_fuel_enough [OF assms] ..

text \<open>
  The parser and the printer on some texts: texts that are refused, white space,
  escapes, a key that occurs twice, and the values that are written as \<^verbatim>\<open>null\<close>.
\<close>

lemma parse_numeral:
  "parseValue numberText (numeral k) s = parseValue numberText (Suc (pred_numeral k)) s"
  "parseElements numberText (numeral k) s xs = parseElements numberText (Suc (pred_numeral k)) s xs"
  "parseMembers numberText (numeral k) s ps = parseMembers numberText (Suc (pred_numeral k)) s ps"
  by (simp_all only: numeral_eq_Suc)

lemmas json_eval =
  JSON_parse_def js_def skipWhiteSpace_def isJsonWhiteSpace_def isNumberChar_def isDigit_def
  isJsonNumber_def numberStep_def consUnit_def unescape_def parseHex4_def hexValue_def
  setProperty_def arrayIndex_def parse_numeral

lemma JSON_parse_errors:
  "JSON_parse (\<lambda>n. n) (js ''[1,]'') = None"
  "JSON_parse (\<lambda>n. n) (js ''01'') = None"
  "JSON_parse (\<lambda>n. n) (js ''tru'') = None"
  "JSON_parse (\<lambda>n. n) (js ''{} x'') = None"
  "JSON_parse (\<lambda>n. n) [] = None"
  by (simp_all add: json_eval)

lemma JSON_parse_example:
  "JSON_parse (\<lambda>n. n) (js ''[ 1 , -2.5e3,true ]'') =
     Some (JArr [JNum (js ''1''), JNum (js ''-2.5e3''), JBool True])"
  by (simp add: json_eval)


lemma JSON_parse_object_example:
  "JSON_parse (\<lambda>n. n) [123, 34, 97, 34, 58, 49, 44, 32, 34, 97, 34, 58, 50, 125] = Some (JObj [(js ''a'', JNum (js ''2''))])"
  by (simp add: json_eval)

lemma parseString_example:
  "parseString [120, 92, 117, 48, 48, 52, 49, 92, 110, 92, 47, 34, 32, 114, 101, 115, 116] = Some (js ''xA'' @ [10] @ js ''/'', js '' rest'')"
  by (simp add: json_eval)

lemma JSON_stringify_example:
  "JSON_stringify (JObj [(js ''a'', JStr [10, 0xD800, 34]), (js ''b'', JArr [JNull, JNum (js ''NaN'')])]) =
     js ''{'' @ [34] @ js ''a'' @ [34] @ js '':'' @ [34, 92] @ js ''n'' @ [92] @ js ''ud800'' @ [92, 34, 34] @
     js '','' @ [34] @ js ''b'' @ [34] @ js '':[null,null]}''"
  by (simp add: js_def quote_def quoteUnit_def hex4_def hexDigit_def isHighSurrogate_def
      isLowSurrogate_def)

lemma JSON_parse_big_example:
  "JSON_parse (\<lambda>n. n)
     [123, 34, 97, 34, 32, 58, 32, 34, 120, 92, 117, 48, 48, 52, 49, 92, 110, 34, 44, 32, 34, 98, 34, 58, 91, 49, 44, 45, 50, 46, 53, 101, 51, 32, 44, 32, 116, 114, 117, 101, 93, 32, 44, 34, 97, 34, 58, 110, 117, 108, 108, 125] =
   Some (JObj [(js ''a'', JNull),
               (js ''b'', JArr [JNum (js ''1''), JNum (js ''-2.5e3''), JBool True])])"
  by (simp add: json_eval)

subsection \<open>Saving and reloading the settings\<close>













lemma stringify_not_empty: "storable numberText v \<Longrightarrow> JSON_stringify v \<noteq> []"
  using valueStart_stringify [of numberText v] by (auto simp: valueStart_iff)

lemma reload_saved:
  assumes "storable numberText newSettings" and "isConfigMissing DEFAULT_SETTINGS \<noteq> None"
  shows "settings (reload DEFAULT_SETTINGS numberText API_KEY (handleSaveSettings newSettings st)) =
         JObj (spread (spread [] (Some DEFAULT_SETTINGS)) (Some newSettings))"
proof -
  obtain c cs where saved: "JSON_stringify newSettings = c # cs"
    using stringify_not_empty [OF assms(1)] by (cases "JSON_stringify newSettings") auto
  have "JSON_parse numberText (c # cs) = Some newSettings"
    using JSON_round_trip [OF assms(1)] saved by simp
  moreover from assms(2) obtain missing where "isConfigMissing DEFAULT_SETTINGS = Some missing"
    by auto
  ultimately show ?thesis
    using saved
    by (simp add: reload_def loadSettings_def handleSaveSettings_def initialState_def Let_def)
qed

lemma exampleSettings_storable: "storable (\<lambda>n. n) exampleSettings"
  by (simp add: exampleSettings_def indexBelow_def arrayIndex_def isDigit_def js_def)


lemma exampleDefaults_render: "isConfigMissing exampleDefaults \<noteq> None"
  by (simp add: isConfigMissing_def exampleDefaults_def js_def)

lemma exampleSettings_reloaded:
  "settings (reload exampleDefaults (\<lambda>n. n) None (handleSaveSettings exampleSettings pageLoaded)) =
     exampleSettings"
proof -
  have "settings (reload exampleDefaults (\<lambda>n. n) None (handleSaveSettings exampleSettings pageLoaded)) =
      JObj (spread (spread [] (Some exampleDefaults)) (Some exampleSettings))"
    using exampleSettings_storable exampleDefaults_render by (rule reload_saved)
  moreover have "JObj (spread (spread [] (Some exampleDefaults)) (Some exampleSettings)) =
      exampleSettings"
    by (simp add: spread_def setProperty_def arrayIndex_def isDigit_def exampleDefaults_def
        exampleSettings_def js_def)
  ultimately show ?thesis
    by simp
qed




end
